theory Spec2Isabelle
  imports Complex_Main "HOL-Library.AList" "HOL-Library.Word"
begin

section \<open>Values shared by the whole pipeline\<close>

text \<open>
  The exceptions that the modelled part of \<^verbatim>\<open>predict_imt.py\<close> can raise, either by an
  explicit \<^verbatim>\<open>raise\<close> (SystemError, NotImplementedError) or from the Python, numpy, pandas
  and OpenCV operations it calls.
\<close>

datatype py_error =
    TypeError
  | UnboundLocalError
  | ValueError
  | IndexError
  | KeyError
  | ZeroDivisionError
  | SystemError
  | NotImplementedError

text \<open>
  A Python float that matters for control flow: a finite real or NaN. Arithmetic on
  finite values is the arithmetic of the reals (rounding is not modelled).
\<close>

datatype pyfloat = Fin real | NaN

fun pyfloat_ge :: "pyfloat \<Rightarrow> real \<Rightarrow> bool" where
  "pyfloat_ge (Fin x) c = (c \<le> x)"
| "pyfloat_ge NaN c = False"

text \<open>
  A numpy array or a tensor: its shape and its elements in row-major order.
\<close>

record 'a ndarray =
  shape :: "nat list"
  elems :: "'a list"

definition nd_map :: "('a \<Rightarrow> 'b) \<Rightarrow> 'a ndarray \<Rightarrow> 'b ndarray" where
  "nd_map f a = \<lparr>shape = shape a, elems = map f (elems a)\<rparr>"

text \<open>
  An element-wise binary operation of the tensor library on operands of one shape.
  Operands of different shapes are outside the model (the library would broadcast them
  or reject them): the model answers ValueError there.
\<close>

definition nd_zip :: "('a \<Rightarrow> 'b \<Rightarrow> 'c) \<Rightarrow> 'a ndarray \<Rightarrow> 'b ndarray \<Rightarrow> py_error + 'c ndarray" where
  "nd_zip f a b =
     (if shape a = shape b \<and> length (elems a) = length (elems b)
      then Inr \<lparr>shape = shape a, elems = map2 f (elems a) (elems b)\<rparr>
      else Inl ValueError)"

text \<open>\<^verbatim>\<open>keras_backend.mean\<close> over all elements; the mean of no elements is NaN.\<close>

definition nd_mean :: "real ndarray \<Rightarrow> pyfloat" where
  "nd_mean a =
     (if elems a = [] then NaN
      else Fin (sum_list (elems a) / real (length (elems a))))"

section \<open>The weighted loss\<close>

text \<open>
  \<^verbatim>\<open>weighted_bce(y_true, y_pred)\<close>. The element-wise cross-entropy
  \<^verbatim>\<open>keras_backend.binary_crossentropy\<close> belongs to the framework and is the
  parameter \<open>bce\<close>: \<open>bce y p\<close> is the term of one element with label \<open>y\<close> and
  prediction \<open>p\<close>.
  \<^verbatim>\<open>
    weights = (y_true * 10.) + 1.
    bce = keras_backend.binary_crossentropy(y_true, y_pred)
    weighted_bce = keras_backend.mean(bce * weights)
  \<close>
\<close>

definition bce_weights :: "real ndarray \<Rightarrow> real ndarray" where
  "bce_weights y_true = nd_map (\<lambda>y. y * 10 + 1) y_true"

definition weighted_terms ::
  "(real \<Rightarrow> real \<Rightarrow> real) \<Rightarrow> real ndarray \<Rightarrow> real ndarray \<Rightarrow> py_error + real ndarray" where
  "weighted_terms bce y_true y_pred =
     (let weights = bce_weights y_true in
      case nd_zip bce y_true y_pred of
        Inl e \<Rightarrow> Inl e
      | Inr b \<Rightarrow> nd_zip (\<lambda>l w. l * w) b weights)"

definition weighted_bce ::
  "(real \<Rightarrow> real \<Rightarrow> real) \<Rightarrow> real ndarray \<Rightarrow> real ndarray \<Rightarrow> py_error + pyfloat" where
  "weighted_bce bce y_true y_pred =
     (case weighted_terms bce y_true y_pred of
        Inl e \<Rightarrow> Inl e
      | Inr t \<Rightarrow> Inr (nd_mean t))"

text \<open>
  The framework's element-wise cross-entropy as TensorFlow 2 computes it, with its
  clipping constant \<open>eps\<close>: the prediction is clipped to \<open>[eps, 1 - eps]\<close> first.
  It instantiates the parameter \<open>bce\<close> in examples.
\<close>

definition keras_bce :: "real \<Rightarrow> real \<Rightarrow> real \<Rightarrow> real" where
  "keras_bce eps y p =
     (let q = max eps (min (1 - eps) p) in
      - (y * ln (q + eps) + (1 - y) * ln (1 - q + eps)))"

section \<open>Strings\<close>

text \<open>
  Python's \<^verbatim>\<open>s.replace(old, new)\<close>: the occurrences of \<open>old\<close> are found from the
  left and do not overlap; each is replaced by \<open>new\<close>. With an empty \<open>old\<close>, \<open>new\<close>
  is inserted before every character and at the end.
\<close>

function str_replace :: "string \<Rightarrow> string \<Rightarrow> string \<Rightarrow> string" where
  "str_replace old new [] = (if old = [] then new else [])"
| "str_replace old new (c # cs) =
     (if old = [] then new @ c # str_replace old new cs
      else if take (length old) (c # cs) = old
        then new @ str_replace old new (drop (length old) (c # cs))
      else c # str_replace old new cs)"
  by pat_completeness auto
termination
  by (relation "measure (\<lambda>(old, new, s). length s)") (auto simp: neq_Nil_conv)

text \<open>\<^verbatim>\<open>sep.join(xs)\<close>.\<close>

fun str_join :: "string \<Rightarrow> string list \<Rightarrow> string" where
  "str_join sep [] = []"
| "str_join sep [x] = x"
| "str_join sep (x # y # ys) = x @ sep @ str_join sep (y # ys)"

text \<open>\<^verbatim>\<open>'{}'.format(n)\<close> for a natural number: its decimal digits.\<close>

definition digit_char :: "nat \<Rightarrow> char" where
  "digit_char d = ''0123456789'' ! d"

function str_of_nat :: "nat \<Rightarrow> string" where
  "str_of_nat n = (if n < 10 then [digit_char n] else str_of_nat (n div 10) @ [digit_char (n mod 10)])"
  by pat_completeness auto
termination
  by (relation "measure id") auto

declare str_of_nat.simps [simp del]

text \<open>Whether \<open>old\<close> occurs in a string as a contiguous substring.\<close>

fun has_sub :: "string \<Rightarrow> string \<Rightarrow> bool" where
  "has_sub old [] = (old = [])"
| "has_sub old (c # cs) = (take (length old) (c # cs) = old \<or> has_sub old cs)"

section \<open>The target-column specification\<close>

text \<open>
  \<^verbatim>\<open>target_columns\<close> is a dictionary from the name of an output to
  \<^verbatim>\<open>{'predict': ..., 'loss': ..., 'weight': ...}\<close>. Python dictionaries keep the order
  in which the keys were inserted and \<^verbatim>\<open>items()\<close> follows it, so the dictionary is
  an association list; its keys are distinct.
\<close>

record target =
  predict :: bool
  loss :: string
  weight :: real

type_synonym target_columns = "(string \<times> target) list"

text \<open>
  The keys that \<^verbatim>\<open>for key, value in target_columns.items()\<close> keeps under
  \<^verbatim>\<open>if value['predict']\<close>, in the order of the dictionary.
\<close>

definition enabled_keys :: "target_columns \<Rightarrow> string list" where
  "enabled_keys tc = map fst (filter (\<lambda>(key, v). predict v) tc)"

text \<open>The target specification of the specification's example scenario.\<close>

definition example_targets :: target_columns where
  "example_targets =
     [(''imt_max'', \<lparr>predict = True, loss = ''mse'', weight = 1\<rparr>),
      (''plaque'', \<lparr>predict = True, loss = ''weighted_bce'', weight = 1 / 2\<rparr>)]"

section \<open>The experiment id\<close>

text \<open>
  The first statements of \<^verbatim>\<open>train_imt_predictor\<close>:
  \<^verbatim>\<open>
    output_id = '_'.join([key.replace('imt_', '') for key, value in target_columns.items()
                          if value['predict']])
    experiment_id = '{}_{}_{}_{}_{}'.format(prefix, database, input_type, input_shape[0], output_id)
  \<close>
  \<^verbatim>\<open>input_shape\<close> is a tuple of dimensions; \<^verbatim>\<open>input_shape[0]\<close> raises IndexError on
  the empty tuple.
\<close>

definition experiment_id ::
  "string \<Rightarrow> string \<Rightarrow> string \<Rightarrow> nat list \<Rightarrow> target_columns \<Rightarrow> py_error + string" where
  "experiment_id pfx database input_type input_shape tc =
     (let output_id = str_join ''_'' (map (\<lambda>key. str_replace ''imt_'' '''' key) (enabled_keys tc)) in
      case input_shape of
        [] \<Rightarrow> Inl IndexError
      | d # _ \<Rightarrow>
          Inr (pfx @ ''_'' @ database @ ''_'' @ input_type @ ''_'' @ str_of_nat d @ ''_'' @ output_id))"

text \<open>
  The experiment id in the words of the specification: prefix, database, input type and
  resolution joined by underscores, followed by the enabled names, each with its
  \<^verbatim>\<open>imt_\<close> prefix stripped, joined by underscores.
\<close>

definition strip_imt_prefix :: "string \<Rightarrow> string" where
  "strip_imt_prefix key = (if take 4 key = ''imt_'' then drop 4 key else key)"

definition spec_experiment_id ::
  "string \<Rightarrow> string \<Rightarrow> string \<Rightarrow> nat list \<Rightarrow> target_columns \<Rightarrow> py_error + string" where
  "spec_experiment_id pfx database input_type input_shape tc =
     (case input_shape of
        [] \<Rightarrow> Inl IndexError
      | d # _ \<Rightarrow>
          Inr (str_join ''_'' [pfx, database, input_type, str_of_nat d,
                 str_join ''_'' (map strip_imt_prefix (enabled_keys tc))]))"

section \<open>Array operations of numpy\<close>

text \<open>\<^verbatim>\<open>np.expand_dims(a, axis=0)\<close>: a new leading axis of length one.\<close>

definition expand_dims0 :: "'a ndarray \<Rightarrow> 'a ndarray" where
  "expand_dims0 a = \<lparr>shape = 1 # shape a, elems = elems a\<rparr>"

text \<open>\<^verbatim>\<open>np.squeeze(a)\<close>: every axis of length one is removed.\<close>

definition squeeze :: "'a ndarray \<Rightarrow> 'a ndarray" where
  "squeeze a = \<lparr>shape = filter (\<lambda>d. d \<noteq> 1) (shape a), elems = elems a\<rparr>"

text \<open>
  \<^verbatim>\<open>np.dstack((a, b))\<close>: both arrays are first viewed with at least three axes
  (\<^verbatim>\<open>np.atleast_3d\<close>: a scalar as \<open>(1, 1, 1)\<close>, a vector of length \<open>n\<close> as
  \<open>(1, n, 1)\<close>, an \<open>m\<close> by \<open>n\<close> matrix as \<open>(m, n, 1)\<close>) and then concatenated along the
  third axis, which raises ValueError unless all other axes agree. In row-major order
  the result lists, for every position of the first two axes, the block of \<open>a\<close> and
  then the block of \<open>b\<close>.
\<close>

fun atleast_3d_shape :: "nat list \<Rightarrow> nat list" where
  "atleast_3d_shape [] = [1, 1, 1]"
| "atleast_3d_shape [n] = [1, n, 1]"
| "atleast_3d_shape [m, n] = [m, n, 1]"
| "atleast_3d_shape s = s"

definition dstack :: "'a ndarray \<Rightarrow> 'a ndarray \<Rightarrow> py_error + 'a ndarray" where
  "dstack a b =
     (let sa = atleast_3d_shape (shape a); sb = atleast_3d_shape (shape b) in
      if length sa = length sb \<and> take 2 sa = take 2 sb \<and> drop 3 sa = drop 3 sb
      then
        (let ka = prod_list (drop 2 sa); kb = prod_list (drop 2 sb) in
         Inr \<lparr>shape = take 2 sa @ [sa ! 2 + sb ! 2] @ drop 3 sa,
              elems = concat (map (\<lambda>i. take ka (drop (i * ka) (elems a)) @
                                         take kb (drop (i * kb) (elems b)))
                                  [0..<prod_list (take 2 sa)])\<rparr>)
      else Inl ValueError)"

section \<open>Cells of a table and arguments of the predictor\<close>

text \<open>
  The Python values that stand in a cell of the dataset table and that are passed as
  \<^verbatim>\<open>img_path\<close> and \<^verbatim>\<open>mask_path\<close>: \<^verbatim>\<open>None\<close>, a string, a float, an integer, a
  dictionary of predictions (in insertion order) or an array.
\<close>

datatype cell =
    CNone
  | CStr string
  | CNum pyfloat
  | CInt int
  | CDict "(string \<times> real ndarray) list"
  | CArr "real ndarray"

section \<open>The single-sample predictor\<close>

text \<open>
  What \<^verbatim>\<open>model.predict\<close> returns: a list of arrays, one per head, for a model with
  several outputs, and a single array for a model with one output.
\<close>

datatype prediction = Heads "real ndarray list" | Single "real ndarray"

text \<open>
  The libraries behind \<^verbatim>\<open>nn_predict_imt\<close>:
  \<^item> \<open>imread\<close> is \<^verbatim>\<open>cv2.imread(path, cv2.IMREAD_GRAYSCALE)\<close>: an array of bytes, or
    \<^verbatim>\<open>None\<close> when the file cannot be read;
  \<^item> \<open>resize\<close> is \<^verbatim>\<open>cv2.resize(img, input_shape)\<close>;
  \<^item> \<open>model_predict\<close> is \<^verbatim>\<open>model.predict\<close> of the model that is passed in.
\<close>

record backend =
  imread :: "string \<Rightarrow> 8 word ndarray option"
  resize :: "real ndarray \<Rightarrow> nat list \<Rightarrow> py_error + real ndarray"
  model_predict :: "real ndarray \<Rightarrow> py_error + prediction"

text \<open>\<^verbatim>\<open>img / 255.\<close> on an array of bytes.\<close>

definition normalize255 :: "8 word ndarray \<Rightarrow> real ndarray" where
  "normalize255 a = nd_map (\<lambda>p. real (unat p) / 255) a"

text \<open>
  \<^verbatim>\<open>
    img = cv2.imread(img_path, cv2.IMREAD_GRAYSCALE) / 255.
    img = cv2.resize(img, input_shape)
  \<close>
  \<^verbatim>\<open>cv2.imread\<close> rejects a file name that is not a string with TypeError, and
  \<^verbatim>\<open>None / 255.\<close> is a TypeError as well.
\<close>

definition load_gray :: "backend \<Rightarrow> cell \<Rightarrow> nat list \<Rightarrow> py_error + real ndarray" where
  "load_gray be path input_shape =
     (case path of
        CStr p \<Rightarrow>
          (case imread be p of
             None \<Rightarrow> Inl TypeError
           | Some a \<Rightarrow> resize be (normalize255 a) input_shape)
      | _ \<Rightarrow> Inl TypeError)"

text \<open>
  The first part of \<^verbatim>\<open>nn_predict_imt\<close>, up to the value of \<^verbatim>\<open>input_data\<close>:
  \<^verbatim>\<open>
    if img_path is not None:
        img = ...; input_data = img
    if mask_path is not None:
        mask = ...; input_data = mask
    if img_path is not None and mask_path is not None:
        input_data = np.dstack((img, mask))
  \<close>
  With neither path, \<^verbatim>\<open>input_data\<close> is read unbound in the next statement.
\<close>

definition nn_input :: "backend \<Rightarrow> cell \<Rightarrow> cell \<Rightarrow> nat list \<Rightarrow> py_error + real ndarray" where
  "nn_input be img_path mask_path input_shape =
     (case (if img_path \<noteq> CNone then map_sum id Some (load_gray be img_path input_shape)
            else Inr None) of
        Inl e \<Rightarrow> Inl e
      | Inr img \<Rightarrow>
          (case (if mask_path \<noteq> CNone then map_sum id Some (load_gray be mask_path input_shape)
                 else Inr None) of
             Inl e \<Rightarrow> Inl e
           | Inr msk \<Rightarrow>
               (case (img, msk) of
                  (Some i, Some m) \<Rightarrow> dstack i m
                | (None, Some m) \<Rightarrow> Inr m
                | (Some i, None) \<Rightarrow> Inr i
                | (None, None) \<Rightarrow> Inl UnboundLocalError)))"

text \<open>
  \<^verbatim>\<open>prediction[count]\<close>: the element of a list, or the sub-array at an index of the
  first axis of an array.
\<close>

definition pred_item :: "prediction \<Rightarrow> nat \<Rightarrow> py_error + real ndarray" where
  "pred_item pred k =
     (case pred of
        Heads hs \<Rightarrow> if k < length hs then Inr (hs ! k) else Inl IndexError
      | Single a \<Rightarrow>
          (case shape a of
             [] \<Rightarrow> Inl IndexError
           | n # rest \<Rightarrow>
               if k < n
               then Inr \<lparr>shape = rest,
                         elems = take (prod_list rest) (drop (k * prod_list rest) (elems a))\<rparr>
               else Inl IndexError))"

text \<open>
  The loop that unpacks the output; \<open>result\<close> is the dictionary built so far:
  \<^verbatim>\<open>
    for key, value in target_columns.items():
        if value['predict']:
            result[key] = np.squeeze(prediction[count])
            count += 1
  \<close>
\<close>

fun unpack_heads ::
  "target_columns \<Rightarrow> prediction \<Rightarrow> nat \<Rightarrow> (string \<times> real ndarray) list
     \<Rightarrow> py_error + (string \<times> real ndarray) list" where
  "unpack_heads [] pred count result = Inr result"
| "unpack_heads ((key, v) # rest) pred count result =
     (if predict v
      then (case pred_item pred count of
              Inl e \<Rightarrow> Inl e
            | Inr h \<Rightarrow> unpack_heads rest pred (count + 1) (AList.update key (squeeze h) result))
      else unpack_heads rest pred count result)"

text \<open>
  \<^verbatim>\<open>nn_predict_imt(img_path, mask_path, model, input_shape, target_columns)\<close>; the model
  is the \<open>model_predict\<close> of the backend.
\<close>

definition nn_predict_imt ::
  "backend \<Rightarrow> cell \<Rightarrow> cell \<Rightarrow> nat list \<Rightarrow> target_columns
     \<Rightarrow> py_error + (string \<times> real ndarray) list" where
  "nn_predict_imt be img_path mask_path input_shape tc =
     (case nn_input be img_path mask_path input_shape of
        Inl e \<Rightarrow> Inl e
      | Inr input_data \<Rightarrow>
          (case model_predict be (expand_dims0 input_data) of
             Inl e \<Rightarrow> Inl e
           | Inr pred \<Rightarrow> unpack_heads tc pred 0 []))"

text \<open>
  A backend for examples: every file is a one by one image with the byte 255, resizing
  leaves an image as it is, and the model has two heads that answer 1/2 and 1.
\<close>

definition example_backend :: backend where
  "example_backend =
     \<lparr>imread = (\<lambda>p. Some \<lparr>shape = [1, 1], elems = [255]\<rparr>),
      resize = (\<lambda>a s. Inr a),
      model_predict = (\<lambda>x. Inr (Heads [\<lparr>shape = [1, 1], elems = [1 / 2]\<rparr>,
                                         \<lparr>shape = [1, 1], elems = [1]\<rparr>]))\<rparr>"

text \<open>
  A second backend for examples, whose images depend on the path and whose model answers
  from its input: four files of two pixels each, any other file cannot be read; resizing
  gives the elements the input shape when their number fits; the two heads of the model
  answer the first and the last element of the input.
\<close>

definition path_backend :: backend where
  "path_backend =
     \<lparr>imread = map_of
        [(''a.png'', \<lparr>shape = [2, 1], elems = [255, 51]\<rparr>),
         (''b.png'', \<lparr>shape = [2, 1], elems = [102, 0]\<rparr>),
         (''a_mask.png'', \<lparr>shape = [2, 1], elems = [0, 204]\<rparr>),
         (''b_mask.png'', \<lparr>shape = [2, 1], elems = [51, 153]\<rparr>)],
      resize = (\<lambda>a s. if prod_list s = length (elems a)
                        then Inr \<lparr>shape = s, elems = elems a\<rparr> else Inl ValueError),
      model_predict = (\<lambda>x. Inr (Heads [\<lparr>shape = [1, 1], elems = [hd (elems x)]\<rparr>,
                                         \<lparr>shape = [1, 1], elems = [last (elems x)]\<rparr>]))\<rparr>"

section \<open>The dataset table\<close>

text \<open>
  A pandas dataframe: the index, one entry per row, and the columns in their order, each
  with one cell per row. The names of the columns are distinct.
\<close>

record dataframe =
  df_index :: "cell list"
  df_columns :: "(string \<times> cell list) list"

definition wf_df :: "dataframe \<Rightarrow> bool" where
  "wf_df df =
     (distinct (map fst (df_columns df))
      \<and> (\<forall>(name, vs) \<in> set (df_columns df). length vs = length (df_index df)))"

text \<open>\<^verbatim>\<open>df[name]\<close>: KeyError when there is no such column.\<close>

definition df_get_column :: "dataframe \<Rightarrow> string \<Rightarrow> py_error + cell list" where
  "df_get_column df name =
     (case map_of (df_columns df) name of
        None \<Rightarrow> Inl KeyError
      | Some vs \<Rightarrow> Inr vs)"

text \<open>
  \<^verbatim>\<open>df[name] = values\<close>: a column of that name is replaced where it stands, a new name
  is appended as the last column; values of another length than the index are a
  ValueError.
\<close>

definition df_set_column :: "dataframe \<Rightarrow> string \<Rightarrow> cell list \<Rightarrow> py_error + dataframe" where
  "df_set_column df name vs =
     (if length vs = length (df_index df)
      then Inr (df\<lparr>df_columns := AList.update name vs (df_columns df)\<rparr>)
      else Inl ValueError)"

text \<open>
  \<^verbatim>\<open>row[name]\<close> for the row at position \<open>r\<close> that \<^verbatim>\<open>iterrows()\<close> yields.
\<close>

definition row_cell :: "dataframe \<Rightarrow> nat \<Rightarrow> string \<Rightarrow> py_error + cell" where
  "row_cell df r name =
     (case map_of (df_columns df) name of
        None \<Rightarrow> Inl KeyError
      | Some vs \<Rightarrow> if r < length vs then Inr (vs ! r) else Inl IndexError)"

text \<open>
  A function applied to the elements of a list from left to right, as
  \<^verbatim>\<open>Series.apply\<close> and a loop that appends do; the first exception ends it.
\<close>

fun sum_mapM :: "('a \<Rightarrow> 'e + 'b) \<Rightarrow> 'a list \<Rightarrow> 'e + 'b list" where
  "sum_mapM f [] = Inr []"
| "sum_mapM f (x # xs) =
     (case f x of
        Inl e \<Rightarrow> Inl e
      | Inr y \<Rightarrow> (case sum_mapM f xs of Inl e \<Rightarrow> Inl e | Inr ys \<Rightarrow> Inr (y # ys)))"

section \<open>The plaque label\<close>

text \<open>
  \<^verbatim>\<open>lambda x: 1 if x >= 1.5 else 0\<close> on a cell. A comparison with NaN is false. A string,
  \<^verbatim>\<open>None\<close> or a dictionary cannot be compared with a float. An array is compared
  element by element and the truth value of the result is that of its only element, is
  false for no element, and is a ValueError for several.
\<close>

definition plaque_label :: "cell \<Rightarrow> py_error + int" where
  "plaque_label x =
     (case x of
        CNum f \<Rightarrow> Inr (if pyfloat_ge f (3 / 2) then 1 else 0)
      | CInt n \<Rightarrow> Inr (if 3 / 2 \<le> real_of_int n then 1 else 0)
      | CArr a \<Rightarrow>
          (case elems a of
             [] \<Rightarrow> Inr 0
           | [v] \<Rightarrow> Inr (if 3 / 2 \<le> v then 1 else 0)
           | _ \<Rightarrow> Inl ValueError)
      | _ \<Rightarrow> Inl TypeError)"

text \<open>
  \<^verbatim>\<open>df['gt_plaque'] = df['gt_imt_max'].apply(lambda x: 1 if x >= 1.5 else 0)\<close>
\<close>

definition add_gt_plaque :: "dataframe \<Rightarrow> py_error + dataframe" where
  "add_gt_plaque df =
     (case df_get_column df ''gt_imt_max'' of
        Inl e \<Rightarrow> Inl e
      | Inr vs \<Rightarrow>
          (case sum_mapM plaque_label vs of
             Inl e \<Rightarrow> Inl e
           | Inr ls \<Rightarrow> df_set_column df ''gt_plaque'' (map CInt ls)))"

section \<open>The checks of the training orchestrator\<close>

text \<open>
  \<^verbatim>\<open>
    device_name = tf.test.gpu_device_name()
    if config.FORCE_GPU:
        if device_name != '/device:GPU:0':
            raise SystemError('GPU device not found')
  \<close>
  \<^verbatim>\<open>config.FORCE_GPU\<close> and the device name that TensorFlow reports are parameters.
\<close>

definition check_device :: "bool \<Rightarrow> string \<Rightarrow> py_error + unit" where
  "check_device force_gpu device_name =
     (if force_gpu
      then (if device_name \<noteq> ''/device:GPU:0'' then Inl SystemError else Inr ())
      else Inr ())"

text \<open>
  \<^verbatim>\<open>
    if input_type == 'img':
        input_column = 'complete_path'
    elif input_type == 'mask':
        input_column = 'mask_path'
    elif input_type == 'img_and_mask':
        input_column = input_type
    else:
        raise NotImplementedError
  \<close>
\<close>

definition select_input_column :: "string \<Rightarrow> py_error + string" where
  "select_input_column input_type =
     (if input_type = ''img'' then Inr ''complete_path''
      else if input_type = ''mask'' then Inr ''mask_path''
      else if input_type = ''img_and_mask'' then Inr input_type
      else Inl NotImplementedError)"

text \<open>The two statements in the order of \<^verbatim>\<open>train_imt_predictor\<close>.\<close>

definition device_and_input_column :: "bool \<Rightarrow> string \<Rightarrow> string \<Rightarrow> py_error + string" where
  "device_and_input_column force_gpu device_name input_type =
     (case check_device force_gpu device_name of
        Inl e \<Rightarrow> Inl e
      | Inr _ \<Rightarrow> select_input_column input_type)"

section \<open>The full-dataframe predictor\<close>

text \<open>
  The paths of one row, as \<^verbatim>\<open>predict_complete_dataframe\<close> selects them:
  \<^verbatim>\<open>
    img_path = None if input_column == 'mask_path' else row['complete_path']
    mask_path = None if input_column == 'complete_path' else row['mask_path']
  \<close>
\<close>

definition row_img_path :: "dataframe \<Rightarrow> string \<Rightarrow> nat \<Rightarrow> py_error + cell" where
  "row_img_path df input_column r =
     (if input_column = ''mask_path'' then Inr CNone else row_cell df r ''complete_path'')"

definition row_mask_path :: "dataframe \<Rightarrow> string \<Rightarrow> nat \<Rightarrow> py_error + cell" where
  "row_mask_path df input_column r =
     (if input_column = ''complete_path'' then Inr CNone else row_cell df r ''mask_path'')"

text \<open>The body of the loop over the rows: the prediction for the row at position \<open>r\<close>.\<close>

definition row_prediction ::
  "backend \<Rightarrow> dataframe \<Rightarrow> string \<Rightarrow> target_columns \<Rightarrow> nat list \<Rightarrow> nat
     \<Rightarrow> py_error + (string \<times> real ndarray) list" where
  "row_prediction be df input_column tc input_shape r =
     (case row_img_path df input_column r of
        Inl e \<Rightarrow> Inl e
      | Inr img_path \<Rightarrow>
          (case row_mask_path df input_column r of
             Inl e \<Rightarrow> Inl e
           | Inr mask_path \<Rightarrow> nn_predict_imt be img_path mask_path input_shape tc))"

text \<open>
  \<^verbatim>\<open>
    nn_predictions = []
    for index, row in dataframe.iterrows():
        ...
        nn_predictions.append(nn_predict_imt(...))
  \<close>
\<close>

definition predict_rows ::
  "backend \<Rightarrow> dataframe \<Rightarrow> string \<Rightarrow> target_columns \<Rightarrow> nat list
     \<Rightarrow> py_error + (string \<times> real ndarray) list list" where
  "predict_rows be df input_column tc input_shape =
     sum_mapM (row_prediction be df input_column tc input_shape) [0..<length (df_index df)]"

text \<open>\<^verbatim>\<open>lambda x: x[key]\<close> on a cell of the column \<^verbatim>\<open>nn_prediction\<close>.\<close>

definition dict_item :: "string \<Rightarrow> cell \<Rightarrow> py_error + cell" where
  "dict_item key x =
     (case x of
        CDict d \<Rightarrow> (case map_of d key of None \<Rightarrow> Inl KeyError | Some a \<Rightarrow> Inr (CArr a))
      | CArr a \<Rightarrow> Inl IndexError
      | _ \<Rightarrow> Inl TypeError)"

definition predicted_name :: "string \<Rightarrow> string" where
  "predicted_name key = ''predicted_'' @ key"

text \<open>
  The second loop, on the dataframe as it stands; an exception leaves the dataframe as
  the loop had changed it so far:
  \<^verbatim>\<open>
    for key, value in target_columns.items():
        if value['predict']:
            prediction_column_name = 'predicted_{}'.format(key)
            dataframe[prediction_column_name] = dataframe['nn_prediction'].apply(lambda x: x[key])
  \<close>
\<close>

fun explode_columns :: "target_columns \<Rightarrow> dataframe \<Rightarrow> py_error option \<times> dataframe" where
  "explode_columns [] df = (None, df)"
| "explode_columns ((key, v) # rest) df =
     (if predict v
      then (case df_get_column df ''nn_prediction'' of
              Inl e \<Rightarrow> (Some e, df)
            | Inr col \<Rightarrow>
                (case sum_mapM (dict_item key) col of
                   Inl e \<Rightarrow> (Some e, df)
                 | Inr vals \<Rightarrow>
                     (case df_set_column df (predicted_name key) vals of
                        Inl e \<Rightarrow> (Some e, df)
                      | Inr df' \<Rightarrow> explode_columns rest df')))
      else explode_columns rest df)"

text \<open>
  \<^verbatim>\<open>predict_complete_dataframe(model, dataframe, input_column, target_columns,
  input_shape)\<close>. The dataframe is an object that the caller holds: the heap maps the
  references to the dataframes, \<open>ref\<close> is the argument \<^verbatim>\<open>dataframe\<close>, and the function
  returns the reference it answers (or the exception) and the heap after the call. The
  assignments \<^verbatim>\<open>dataframe[...] = ...\<close> change the object at \<open>ref\<close>.
\<close>

type_synonym heap = "nat \<Rightarrow> dataframe"

definition predict_complete_dataframe ::
  "backend \<Rightarrow> nat \<Rightarrow> string \<Rightarrow> target_columns \<Rightarrow> nat list \<Rightarrow> heap
     \<Rightarrow> (py_error + nat) \<times> heap" where
  "predict_complete_dataframe be ref input_column tc input_shape hp =
     (case predict_rows be (hp ref) input_column tc input_shape of
        Inl e \<Rightarrow> (Inl e, hp)
      | Inr nn_predictions \<Rightarrow>
          (case df_set_column (hp ref) ''nn_prediction'' (map CDict nn_predictions) of
             Inl e \<Rightarrow> (Inl e, hp)
           | Inr df1 \<Rightarrow>
               (case explode_columns tc df1 of
                  (Some e, df2) \<Rightarrow> (Inl e, hp(ref := df2))
                | (None, df2) \<Rightarrow> (Inr ref, hp(ref := df2)))))"

text \<open>Tables for examples: two rows with their paths and measurements.\<close>

definition example_df :: dataframe where
  "example_df =
     \<lparr>df_index = [CInt 0, CInt 1],
      df_columns =
        [(''complete_path'', [CStr ''a.png'', CStr ''b.png'']),
         (''mask_path'', [CStr ''a_mask.png'', CStr ''b_mask.png'']),
         (''gt_imt_max'', [CNum (Fin 2), CNum (Fin 1)])]\<rparr>"

definition example_df_predicted :: dataframe where
  "example_df_predicted =
     \<lparr>df_index = [CInt 0],
      df_columns =
        [(''complete_path'', [CStr ''a.png'']),
         (''nn_prediction'', [CStr ''old''])]\<rparr>"

text \<open>
  For the statements about the second loop: the column of the components keyed \<open>key\<close>
  of a list of prediction mappings, and the columns of a table after the columns
  \<^verbatim>\<open>predicted_<key>\<close> were assigned for the keys \<open>ks\<close> in their order.
\<close>

definition component_column :: "string \<Rightarrow> (string \<times> real ndarray) list list \<Rightarrow> cell list" where
  "component_column key preds =
     map (\<lambda>d. case map_of d key of Some a \<Rightarrow> CArr a | None \<Rightarrow> CNone) preds"

definition with_predicted_columns ::
  "(string \<times> real ndarray) list list \<Rightarrow> string list \<Rightarrow> (string \<times> cell list) list
     \<Rightarrow> (string \<times> cell list) list" where
  "with_predicted_columns preds ks cols =
     fold (\<lambda>key. AList.update (predicted_name key) (component_column key preds)) ks cols"

section \<open>The batch diagnostic printer\<close>

text \<open>\<^verbatim>\<open>xs[i]\<close> on a list, for an index that is not negative.\<close>

definition py_index :: "'a list \<Rightarrow> nat \<Rightarrow> py_error + 'a" where
  "py_index xs i = (if i < length xs then Inr (xs ! i) else Inl IndexError)"

text \<open>
  A batch is the pair \<^verbatim>\<open>(x_batch, y_batch)\<close>: the examples, and for every head the
  ground truth of every example. A generator has its \<^verbatim>\<open>batch_size\<close> and is iterated:
  \<open>next_batch k\<close> is the batch that the \<open>k\<close>-th step of the iteration yields, or
  \<open>None\<close> when the generator is exhausted there. A generator that never answers
  \<open>None\<close> yields batches for ever, as the generators of Keras do.
\<close>

type_synonym batch = "real ndarray list \<times> real list list"

record generator =
  batch_size :: nat
  next_batch :: "nat \<Rightarrow> batch option"

text \<open>What the function shows and prints, in order.\<close>

datatype event =
    Imshow "real ndarray"
  | PrintGT "real list"
  | PrintPredicted "real ndarray"
  | PrintError "real ndarray"
  | PrintMean "real ndarray"

text \<open>
  \<^verbatim>\<open>
    if config.PREDICT_PLAQUE:
        gt = [y_batch[0][i], y_batch[1][i], y_batch[2][i]]
    else:
        gt = [y_batch[0][i], y_batch[1][i]]
  \<close>
  \<^verbatim>\<open>config.PREDICT_PLAQUE\<close> is the parameter \<open>predict_plaque\<close>.
\<close>

definition y_item :: "real list list \<Rightarrow> nat \<Rightarrow> nat \<Rightarrow> py_error + real" where
  "y_item y_batch k i =
     (case py_index y_batch k of
        Inl e \<Rightarrow> Inl e
      | Inr ys \<Rightarrow> py_index ys i)"

definition gt_of :: "bool \<Rightarrow> real list list \<Rightarrow> nat \<Rightarrow> py_error + real list" where
  "gt_of predict_plaque y_batch i =
     sum_mapM (\<lambda>k. y_item y_batch k i) (if predict_plaque then [0, 1, 2] else [0, 1])"

text \<open>
  \<^verbatim>\<open>np.array(pred)\<close> on the output of the model: the array itself, or the heads stacked
  along a new first axis. Heads of different shapes are outside the model (ValueError).
\<close>

definition stack_prediction :: "prediction \<Rightarrow> py_error + real ndarray" where
  "stack_prediction pred =
     (case pred of
        Single a \<Rightarrow> Inr a
      | Heads [] \<Rightarrow> Inr \<lparr>shape = [0], elems = []\<rparr>
      | Heads (h # hs) \<Rightarrow>
          if list_all (\<lambda>h'. shape h' = shape h) hs
          then Inr \<lparr>shape = Suc (length hs) # shape h, elems = concat (map elems (h # hs))\<rparr>
          else Inl ValueError)"

text \<open>
  \<^verbatim>\<open>gt - pred\<close>, the list \<^verbatim>\<open>gt\<close> against the squeezed array \<^verbatim>\<open>pred\<close>: a scalar is
  subtracted from every element of \<^verbatim>\<open>gt\<close>; an array whose last axis has the length of
  \<^verbatim>\<open>gt\<close> is subtracted along that axis; other shapes cannot be broadcast.
\<close>

definition sub_gt :: "real list \<Rightarrow> real ndarray \<Rightarrow> py_error + real ndarray" where
  "sub_gt gt pred =
     (case shape pred of
        [] \<Rightarrow>
          (case elems pred of
             [v] \<Rightarrow> Inr \<lparr>shape = [length gt], elems = map (\<lambda>y. y - v) gt\<rparr>
           | _ \<Rightarrow> Inl ValueError)
      | s \<Rightarrow>
          if last s = length gt \<and> gt \<noteq> []
          then Inr \<lparr>shape = s,
                    elems = map (\<lambda>(j, v). gt ! (j mod length gt) - v)
                              (zip [0..<length (elems pred)] (elems pred))\<rparr>
          else Inl ValueError)"

text \<open>
  One example of a batch, up to its error:
  \<^verbatim>\<open>
    gt = ...
    pred = model.predict(np.expand_dims(x_batch[i], axis=0))
    pred = np.squeeze(np.array(pred).tolist())
    error = gt - pred
  \<close>
  The result is \<^verbatim>\<open>gt\<close>, \<^verbatim>\<open>x_batch[i]\<close>, \<^verbatim>\<open>pred\<close> and \<^verbatim>\<open>error\<close>.
\<close>

definition example_pass ::
  "backend \<Rightarrow> bool \<Rightarrow> batch \<Rightarrow> nat
     \<Rightarrow> py_error + (real list \<times> real ndarray \<times> real ndarray \<times> real ndarray)" where
  "example_pass be predict_plaque b i =
     (case gt_of predict_plaque (snd b) i of
        Inl e \<Rightarrow> Inl e
      | Inr gt \<Rightarrow>
          (case py_index (fst b) i of
             Inl e \<Rightarrow> Inl e
           | Inr x \<Rightarrow>
               (case model_predict be (expand_dims0 x) of
                  Inl e \<Rightarrow> Inl e
                | Inr p \<Rightarrow>
                    (case stack_prediction p of
                       Inl e \<Rightarrow> Inl e
                     | Inr a \<Rightarrow>
                         (case sub_gt gt (squeeze a) of
                            Inl e \<Rightarrow> Inl e
                          | Inr err \<Rightarrow> Inr (gt, x, squeeze a, err))))))"

text \<open>
  The rest of the body: the error is appended to \<^verbatim>\<open>errors\<close>, the image is shown when
  \<^verbatim>\<open>plot_images\<close> is set, and three lines are printed. The state is \<^verbatim>\<open>errors\<close> and the
  output so far.
\<close>

type_synonym plot_state = "real ndarray list \<times> event list"

definition record_example ::
  "bool \<Rightarrow> real list \<times> real ndarray \<times> real ndarray \<times> real ndarray \<Rightarrow> plot_state \<Rightarrow> plot_state" where
  "record_example plot_images r st =
     (case r of (gt, x, pred, err) \<Rightarrow>
        (fst st @ [err],
         snd st @ (if plot_images then [Imshow (squeeze x)] else [])
                @ [PrintGT gt, PrintPredicted pred, PrintError err]))"

text \<open>\<^verbatim>\<open>for i in range(generator.batch_size)\<close>, over the indices that are left.\<close>

fun batch_loop ::
  "backend \<Rightarrow> bool \<Rightarrow> bool \<Rightarrow> batch \<Rightarrow> nat list \<Rightarrow> plot_state \<Rightarrow> py_error + plot_state" where
  "batch_loop be predict_plaque plot_images b [] st = Inr st"
| "batch_loop be predict_plaque plot_images b (i # rest) st =
     (case example_pass be predict_plaque b i of
        Inl e \<Rightarrow> Inl e
      | Inr r \<Rightarrow> batch_loop be predict_plaque plot_images b rest (record_example plot_images r st))"

text \<open>
  The outer loop, at the \<open>pos\<close>-th step of the iteration with the current value of
  \<^verbatim>\<open>loops\<close>, a Python integer:
  \<^verbatim>\<open>
    for x_batch, y_batch in generator:
        ...
        loops -= 1
        if not loops:
            break
  \<close>
  The loop ends when the generator is exhausted or at the \<^verbatim>\<open>break\<close>; it need not end.
  Its result is the number of batches taken from the generator and the state.
\<close>

partial_function (option) plot_loop ::
  "backend \<Rightarrow> bool \<Rightarrow> bool \<Rightarrow> generator \<Rightarrow> nat \<Rightarrow> int \<Rightarrow> plot_state
     \<Rightarrow> (py_error + nat \<times> plot_state) option" where
  "plot_loop be predict_plaque plot_images gen pos loops st =
     (case next_batch gen pos of
        None \<Rightarrow> Some (Inr (pos, st))
      | Some b \<Rightarrow>
          (case batch_loop be predict_plaque plot_images b [0..<batch_size gen] st of
             Inl e \<Rightarrow> Some (Inl e)
           | Inr st' \<Rightarrow>
               if loops - 1 = 0 then Some (Inr (pos + 1, st'))
               else plot_loop be predict_plaque plot_images gen (pos + 1) (loops - 1) st'))"

text \<open>
  \<^verbatim>\<open>sum(errors) / len(errors)\<close>: the arrays are added one after the other, and the sum
  is divided by their number; no array at all is a division of 0 by 0.
\<close>

fun sum_arrays :: "real ndarray \<Rightarrow> real ndarray list \<Rightarrow> py_error + real ndarray" where
  "sum_arrays acc [] = Inr acc"
| "sum_arrays acc (e # es) =
     (case nd_zip (\<lambda>a b. a + b) acc e of
        Inl err \<Rightarrow> Inl err
      | Inr acc' \<Rightarrow> sum_arrays acc' es)"

definition mean_errors :: "real ndarray list \<Rightarrow> py_error + real ndarray" where
  "mean_errors errors =
     (case errors of
        [] \<Rightarrow> Inl ZeroDivisionError
      | e # es \<Rightarrow>
          (case sum_arrays e es of
             Inl err \<Rightarrow> Inl err
           | Inr summed \<Rightarrow> Inr (nd_map (\<lambda>v. v / real (length errors)) summed)))"

text \<open>
  \<^verbatim>\<open>plot_predictions(model, generator, plot_images, loops)\<close>: \<open>None\<close> when the loop
  does not end, otherwise the exception, or the number of batches taken from the
  generator, the accumulated errors and the output, which ends with the mean.
\<close>

definition plot_predictions ::
  "backend \<Rightarrow> bool \<Rightarrow> generator \<Rightarrow> bool \<Rightarrow> int
     \<Rightarrow> (py_error + nat \<times> real ndarray list \<times> event list) option" where
  "plot_predictions be predict_plaque gen plot_images loops =
     (case plot_loop be predict_plaque plot_images gen 0 loops ([], []) of
        None \<Rightarrow> None
      | Some (Inl e) \<Rightarrow> Some (Inl e)
      | Some (Inr (n, errors, out)) \<Rightarrow>
          Some (case mean_errors errors of
                  Inl e \<Rightarrow> Inl e
                | Inr m \<Rightarrow> Inr (n, errors, out @ [PrintMean m])))"

text \<open>
  Generators for examples, with batches of one example. The example backend predicts
  1/2 and 1 for every input. One generator yields the same batch for ever, as the
  generators of Keras do; the other yields two batches with different ground truths and
  is exhausted then.
\<close>

definition example_batch :: batch where
  "example_batch = ([\<lparr>shape = [1, 1], elems = [1]\<rparr>], [[1 / 2], [1]])"

definition endless_batches :: generator where
  "endless_batches = \<lparr>batch_size = 1, next_batch = (\<lambda>k. Some example_batch)\<rparr>"

definition first_batch :: batch where
  "first_batch = ([\<lparr>shape = [1, 1], elems = [1]\<rparr>], [[1], [3]])"

definition second_batch :: batch where
  "second_batch = ([\<lparr>shape = [1, 1], elems = [0]\<rparr>], [[2], [1]])"

definition varied_batches :: generator where
  "varied_batches =
     \<lparr>batch_size = 1,
      next_batch = (\<lambda>k. if k = 0 then Some first_batch
                         else if k = 1 then Some second_batch
                         else None)\<rparr>"

text \<open>
  The generator yields the \<open>n\<close> batches from step \<open>pos\<close> on, and every example of each
  of them is processed without an exception.
\<close>

definition batches_ok :: "backend \<Rightarrow> bool \<Rightarrow> generator \<Rightarrow> nat \<Rightarrow> nat \<Rightarrow> bool" where
  "batches_ok be pp gen pos n =
     (\<forall>k < n. \<exists>b. next_batch gen (pos + k) = Some b
        \<and> (\<forall>i < batch_size gen. \<exists>r. example_pass be pp b i = Inr r))"

section \<open>Properties of the weighted loss\<close>

lemma weighted_terms_eq:
  assumes "shape y_true = shape y_pred" "length (elems y_true) = length (elems y_pred)"
  shows "weighted_terms bce y_true y_pred =
    Inr \<lparr>shape = shape y_true,
         elems = map2 (\<lambda>y p. bce y p * (y * 10 + 1)) (elems y_true) (elems y_pred)\<rparr>"
proof -
  have "map2 (\<lambda>l w. l * w) (map2 bce (elems y_true) (elems y_pred)) (map (\<lambda>y. y * 10 + 1) (elems y_true))
      = map2 (\<lambda>y p. bce y p * (y * 10 + 1)) (elems y_true) (elems y_pred)"
    using assms(2) by (intro nth_equalityI) auto
  then show ?thesis
    using assms by (simp add: weighted_terms_def nd_zip_def bce_weights_def nd_map_def)
qed

text \<open>
  Claim C1. For labels in \<open>{0, 1}\<close> and predictions in \<open>[0, 1]\<close> of one shape
  (and at least one element), \<open>weighted_bce\<close> is the mean over all elements of the
  element's cross-entropy scaled by \<open>10 * label + 1\<close>; the term of an element with
  label 1 is 11 times its cross-entropy, the term of an element with label 0 is 1 times it.
\<close>

theorem weighted_bce_mean:
  assumes "shape y_true = shape y_pred"
    and "length (elems y_true) = length (elems y_pred)"
    and "elems y_true \<noteq> []"
    and "set (elems y_true) \<subseteq> {0, 1}"
    and "set (elems y_pred) \<subseteq> {0..1}"
  shows "weighted_bce bce y_true y_pred =
      Inr (Fin ((\<Sum>i = 0..<length (elems y_true).
                  (10 * (elems y_true ! i) + 1) * bce (elems y_true ! i) (elems y_pred ! i))
                / real (length (elems y_true))))
    \<and> (\<exists>t. weighted_terms bce y_true y_pred = Inr t
          \<and> shape t = shape y_true
          \<and> length (elems t) = length (elems y_true)
          \<and> (\<forall>i < length (elems y_true).
                elems t ! i =
                  (if elems y_true ! i = 1 then 11 * bce 1 (elems y_pred ! i)
                   else 1 * bce 0 (elems y_pred ! i))))"
proof -
  let ?n = "length (elems y_true)"
  define ts where "ts = map2 (\<lambda>y p. bce y p * (y * 10 + 1)) (elems y_true) (elems y_pred)"
  have wt: "weighted_terms bce y_true y_pred = Inr \<lparr>shape = shape y_true, elems = ts\<rparr>"
    unfolding ts_def using assms(1,2) by (rule weighted_terms_eq)
  have len: "length ts = ?n"
    using assms(2) by (simp add: ts_def)
  have nth: "ts ! i = bce (elems y_true ! i) (elems y_pred ! i) * (elems y_true ! i * 10 + 1)"
    if "i < ?n" for i
    using that assms(2) by (simp add: ts_def)
  have "sum_list ts = (\<Sum>i = 0..<?n. ts ! i)"
    using len sum_list_sum_nth[of ts] by simp
  also have "\<dots> = (\<Sum>i = 0..<?n.
                  (10 * (elems y_true ! i) + 1) * bce (elems y_true ! i) (elems y_pred ! i))"
    by (rule sum.cong) (simp_all add: nth mult.commute)
  finally have s: "sum_list ts = (\<Sum>i = 0..<?n.
                  (10 * (elems y_true ! i) + 1) * bce (elems y_true ! i) (elems y_pred ! i))" .
  have ne: "ts \<noteq> []"
    using assms(3) len by auto
  have first: "weighted_bce bce y_true y_pred = Inr (Fin ((\<Sum>i = 0..<?n.
                  (10 * (elems y_true ! i) + 1) * bce (elems y_true ! i) (elems y_pred ! i)) / real ?n))"
    unfolding weighted_bce_def wt nd_mean_def using ne s len by simp
  have el: "ts ! i = (if elems y_true ! i = 1 then 11 * bce 1 (elems y_pred ! i)
                   else 1 * bce 0 (elems y_pred ! i))" if "i < ?n" for i
  proof -
    have "elems y_true ! i \<in> {0, 1}"
      using that assms(4) nth_mem by blast
    then show ?thesis
      using nth[OF that] by auto
  qed
  show ?thesis
    using first wt len el by simp
qed

text \<open>The theorem at two elements, one of each label.\<close>

theorem weighted_bce_mean_witness:
  "weighted_bce (keras_bce (1 / 10000000)) \<lparr>shape = [2], elems = [1, 0]\<rparr> \<lparr>shape = [2], elems = [1 / 2, 1 / 4]\<rparr>
     = Inr (Fin ((11 * keras_bce (1 / 10000000) 1 (1 / 2) + keras_bce (1 / 10000000) 0 (1 / 4)) / 2))"
  using weighted_bce_mean [of "\<lparr>shape = [2], elems = [1, 0]\<rparr>" "\<lparr>shape = [2], elems = [1 / 2, 1 / 4]\<rparr>" "keras_bce (1 / 10000000)"]
  by (simp add: numeral_2_eq_2)

section \<open>Properties of the experiment id\<close>

lemma str_replace_absent:
  "old \<noteq> [] \<Longrightarrow> \<not> has_sub old s \<Longrightarrow> str_replace old new s = s"
  by (induction s) auto

lemma str_replace_prefix:
  assumes "old \<noteq> []"
  shows "str_replace old new (old @ rest) = new @ str_replace old new rest"
proof -
  obtain c cs where o: "old = c # cs"
    using assms by (cases old) auto
  have "str_replace old new (c # (cs @ rest)) = new @ str_replace old new (drop (length old) (c # (cs @ rest)))"
    by (subst str_replace.simps) (simp add: o)
  then show ?thesis
    by (simp add: o)
qed

lemma str_replace_imt_strip:
  assumes "\<not> has_sub ''imt_'' (strip_imt_prefix key)"
  shows "str_replace ''imt_'' '''' key = strip_imt_prefix key"
proof (cases "take 4 key = ''imt_''")
  case True
  then obtain rest where k: "key = ''imt_'' @ rest"
    by (metis append_take_drop_id)
  have r: "strip_imt_prefix key = rest"
    by (simp add: k strip_imt_prefix_def)
  have "str_replace ''imt_'' [] (''imt_'' @ rest) = str_replace ''imt_'' [] rest"
    using str_replace_prefix[of "''imt_''" "[]" rest] by simp
  also have "\<dots> = rest"
    using assms r by (intro str_replace_absent) simp_all
  finally show ?thesis
    using r k by simp
next
  case False
  then show ?thesis
    using assms by (simp add: strip_imt_prefix_def str_replace_absent)
qed

text \<open>
  Claim C2, as the code has it. For a non-empty input shape the experiment id is prefix,
  database, input type and the first component of the shape joined by underscores,
  followed by the enabled target names in declaration order, joined by underscores, each
  after \<^verbatim>\<open>replace('imt_', '')\<close>, which removes every occurrence of \<^verbatim>\<open>imt_\<close>.
  When \<^verbatim>\<open>imt_\<close> occurs in no enabled name other than as its prefix, this is the id of the
  specification, with the prefix stripped.
\<close>

theorem experiment_id_format:
  "experiment_id pfx database input_type (d # ds) tc =
     Inr (str_join ''_'' [pfx, database, input_type, str_of_nat d,
            str_join ''_'' (map (str_replace ''imt_'' '''') (enabled_keys tc))])
   \<and> ((\<forall>key \<in> set (enabled_keys tc). \<not> has_sub ''imt_'' (strip_imt_prefix key)) \<longrightarrow>
        experiment_id pfx database input_type (d # ds) tc =
          spec_experiment_id pfx database input_type (d # ds) tc)"
proof -
  have gen: "experiment_id pfx database input_type (d # ds) tc =
     Inr (str_join ''_'' [pfx, database, input_type, str_of_nat d,
            str_join ''_'' (map (str_replace ''imt_'' '''') (enabled_keys tc))])"
    by (simp add: experiment_id_def)
  have "experiment_id pfx database input_type (d # ds) tc =
          spec_experiment_id pfx database input_type (d # ds) tc"
    if h: "\<forall>key \<in> set (enabled_keys tc). \<not> has_sub ''imt_'' (strip_imt_prefix key)"
  proof -
    have m: "map (str_replace ''imt_'' []) (enabled_keys tc) = map strip_imt_prefix (enabled_keys tc)"
      using h by (intro map_cong refl str_replace_imt_strip) simp
    show ?thesis
      unfolding gen m by (simp add: spec_experiment_id_def)
  qed
  then show ?thesis
    using gen by blast
qed

text \<open>
  The example scenario: targets \<^verbatim>\<open>imt_max\<close> and \<^verbatim>\<open>plaque\<close> enabled, database CCA, input
  type img, shape (512, 512), prefix exp.
\<close>

theorem experiment_id_format_witness:
  "enabled_keys example_targets = [''imt_max'', ''plaque'']
   \<and> \<not> has_sub ''imt_'' (strip_imt_prefix ''imt_max'')
   \<and> \<not> has_sub ''imt_'' (strip_imt_prefix ''plaque'')
   \<and> experiment_id ''exp'' ''CCA'' ''img'' [512, 512] example_targets = Inr ''exp_CCA_img_512_max_plaque''
   \<and> spec_experiment_id ''exp'' ''CCA'' ''img'' [512, 512] example_targets = Inr ''exp_CCA_img_512_max_plaque''"
  using experiment_id_format [of "''exp''" "''CCA''" "''img''" 512 "[512]" example_targets]
  by (simp add: example_targets_def enabled_keys_def strip_imt_prefix_def spec_experiment_id_def
      str_of_nat.simps digit_char_def)

text \<open>
  A name with \<^verbatim>\<open>imt_\<close> in the middle: the code removes the occurrence, stripping the
  prefix leaves the name as it is.
\<close>

theorem experiment_id_prefix_counterexample:
  "experiment_id ''exp'' ''CCA'' ''img'' [512, 512]
       [(''a_imt_b'', \<lparr>predict = True, loss = ''mse'', weight = 1\<rparr>)] = Inr ''exp_CCA_img_512_a_b''
   \<and> spec_experiment_id ''exp'' ''CCA'' ''img'' [512, 512]
       [(''a_imt_b'', \<lparr>predict = True, loss = ''mse'', weight = 1\<rparr>)] = Inr ''exp_CCA_img_512_a_imt_b''
   \<and> experiment_id ''exp'' ''CCA'' ''img'' [512, 512]
       [(''a_imt_b'', \<lparr>predict = True, loss = ''mse'', weight = 1\<rparr>)]
     \<noteq> spec_experiment_id ''exp'' ''CCA'' ''img'' [512, 512]
       [(''a_imt_b'', \<lparr>predict = True, loss = ''mse'', weight = 1\<rparr>)]"
  by (simp add: experiment_id_def spec_experiment_id_def enabled_keys_def strip_imt_prefix_def
      str_of_nat.simps digit_char_def)

section \<open>Properties of the single-sample predictor\<close>

lemma take1_drop: "i < length xs \<Longrightarrow> take (Suc 0) (drop i xs) = [xs ! i]"
  by (simp add: take_Suc_conv_app_nth)

lemma concat_pairs_length: "length (concat (map (\<lambda>i. [f i, g i]) [0..<n])) = 2 * n"
  by (induction n) simp_all

lemma concat_pairs_nth:
  "k < n \<Longrightarrow> concat (map (\<lambda>i. [f i, g i]) [0..<n]) ! (2 * k) = f k
     \<and> concat (map (\<lambda>i. [f i, g i]) [0..<n]) ! (2 * k + 1) = g k"
proof (induction n)
  case 0
  then show ?case by simp
next
  case (Suc n)
  show ?case
  proof (cases "k < n")
    case True
    then show ?thesis
      using Suc.IH by (simp add: nth_append concat_pairs_length)
  next
    case False
    then have "k = n" using Suc.prems by simp
    then show ?thesis
      by (simp add: nth_append concat_pairs_length)
  qed
qed

lemma dstack_two_channels:
  assumes "shape i = [h, w]" "shape m = [h, w]"
    and "length (elems i) = h * w" "length (elems m) = h * w"
  shows "\<exists>d. dstack i m = Inr d \<and> shape d = [h, w, 2] \<and> length (elems d) = h * w * 2
           \<and> (\<forall>k < h * w. elems d ! (2 * k) = elems i ! k \<and> elems d ! (2 * k + 1) = elems m ! k)"
proof -
  let ?es = "concat (map (\<lambda>k. [elems i ! k, elems m ! k]) [0..<h * w])"
  have me: "map (\<lambda>k. take (Suc 0) (drop k (elems i)) @ take (Suc 0) (drop k (elems m))) [0..<h * w]
      = map (\<lambda>k. [elems i ! k, elems m ! k]) [0..<h * w]"
    using assms(3,4) by (intro map_cong refl) (simp add: take1_drop)
  have d: "dstack i m = Inr \<lparr>shape = [h, w, 2], elems = ?es\<rparr>"
    using assms(1,2) by (simp add: dstack_def Let_def me)
  show ?thesis
    unfolding d using concat_pairs_nth[of _ "h * w" "\<lambda>k. elems i ! k" "\<lambda>k. elems m ! k"]
    by (simp add: concat_pairs_length)
qed

lemma normalize255_range:
  "x \<in> set (elems (normalize255 a)) \<Longrightarrow> 0 \<le> x \<and> x \<le> 1"
proof -
  assume "x \<in> set (elems (normalize255 a))"
  then obtain p :: "8 word" where x: "x = real (unat p) / 255"
    by (auto simp: normalize255_def nd_map_def)
  have "unat p < 2 ^ 8"
    using unsigned_less[of p] by simp
  then have le: "unat p \<le> 255"
    by simp
  have "real (unat p) \<le> real (255 :: nat)"
    by (rule of_nat_mono) (rule le)
  moreover have "0 \<le> real (unat p)"
    by (rule of_nat_0_le_iff)
  ultimately show ?thesis
    unfolding x by simp
qed

lemma normalize255_elems:
  "normalize255 a = \<lparr>shape = shape a, elems = map (\<lambda>v. real (unat v) / 255) (elems a)\<rparr>"
  by (simp add: normalize255_def nd_map_def)

text \<open>
  Claim C3. A path that is given is read as a grey-level image and divided by 255:
  element \<open>k\<close> of the result is the byte \<open>k\<close> of the image over 255, which lies in
  \<open>[0, 1]\<close>, and the shape is kept. That array is resized to the input shape. With one
  path the input of the model is the resized array; with both it is the depth-stack of
  the image array and the mask array, which for two \<open>h\<close> by \<open>w\<close> arrays has the shape
  \<open>(h, w, 2)\<close> with the image in channel 0 and the mask in channel 1. The model is run
  on \<^verbatim>\<open>np.expand_dims(input_data, axis=0)\<close>, a batch of one example.
\<close>

theorem nn_input_construction:
  "(imread be p = Some a \<longrightarrow>
       load_gray be (CStr p) s = resize be (normalize255 a) s
     \<and> load_gray be (CStr p) s =
         resize be \<lparr>shape = shape a, elems = map (\<lambda>v. real (unat v) / 255) (elems a)\<rparr> s
     \<and> (\<forall>k < length (elems a). elems (normalize255 a) ! k = real (unat (elems a ! k)) / 255)
     \<and> shape (normalize255 a) = shape a
     \<and> length (elems (normalize255 a)) = length (elems a)
     \<and> (\<forall>x \<in> set (elems (normalize255 a)). 0 \<le> x \<and> x \<le> 1))
   \<and> (c \<noteq> CNone \<longrightarrow>
         nn_input be c CNone s = load_gray be c s \<and> nn_input be CNone c s = load_gray be c s)
   \<and> (c1 \<noteq> CNone \<and> c2 \<noteq> CNone \<and> load_gray be c1 s = Inr i \<and> load_gray be c2 s = Inr m \<longrightarrow>
         nn_input be c1 c2 s = dstack i m)
   \<and> (shape i = [h, w] \<and> shape m = [h, w] \<and> length (elems i) = h * w \<and> length (elems m) = h * w \<longrightarrow>
         (\<exists>d. dstack i m = Inr d \<and> shape d = [h, w, 2] \<and> length (elems d) = h * w * 2
            \<and> (\<forall>k < h * w. elems d ! (2 * k) = elems i ! k \<and> elems d ! (2 * k + 1) = elems m ! k)))
   \<and> (nn_input be c1 c2 s = Inr x \<longrightarrow>
         nn_predict_imt be c1 c2 s tc =
           (case model_predict be (expand_dims0 x) of
              Inl e \<Rightarrow> Inl e
            | Inr pred \<Rightarrow> unpack_heads tc pred 0 [])
       \<and> shape (expand_dims0 x) = 1 # shape x
       \<and> elems (expand_dims0 x) = elems x)"
proof -
  have load: "load_gray be (CStr p) s = resize be (normalize255 a) s
     \<and> load_gray be (CStr p) s =
         resize be \<lparr>shape = shape a, elems = map (\<lambda>v. real (unat v) / 255) (elems a)\<rparr> s
     \<and> (\<forall>k < length (elems a). elems (normalize255 a) ! k = real (unat (elems a ! k)) / 255)
     \<and> shape (normalize255 a) = shape a
     \<and> length (elems (normalize255 a)) = length (elems a)
     \<and> (\<forall>x \<in> set (elems (normalize255 a)). 0 \<le> x \<and> x \<le> 1)"
    if "imread be p = Some a"
  proof (intro conjI)
    show "load_gray be (CStr p) s = resize be (normalize255 a) s"
      using that by (simp add: load_gray_def)
    then show "load_gray be (CStr p) s =
         resize be \<lparr>shape = shape a, elems = map (\<lambda>v. real (unat v) / 255) (elems a)\<rparr> s"
      by (simp only: normalize255_elems)
    show "\<forall>k < length (elems a). elems (normalize255 a) ! k = real (unat (elems a ! k)) / 255"
      by (simp add: normalize255_elems)
    show "shape (normalize255 a) = shape a"
      by (simp add: normalize255_elems)
    show "length (elems (normalize255 a)) = length (elems a)"
      by (simp add: normalize255_elems)
    show "\<forall>x \<in> set (elems (normalize255 a)). 0 \<le> x \<and> x \<le> 1"
      using normalize255_range[of _ a] by blast
  qed
  have one: "nn_input be c CNone s = load_gray be c s \<and> nn_input be CNone c s = load_gray be c s"
    if "c \<noteq> CNone"
    using that by (cases "load_gray be c s") (simp_all add: nn_input_def)
  have both: "nn_input be c1 c2 s = dstack i m"
    if "c1 \<noteq> CNone \<and> c2 \<noteq> CNone \<and> load_gray be c1 s = Inr i \<and> load_gray be c2 s = Inr m"
    using that by (simp add: nn_input_def)
  have stack: "\<exists>d. dstack i m = Inr d \<and> shape d = [h, w, 2] \<and> length (elems d) = h * w * 2
            \<and> (\<forall>k < h * w. elems d ! (2 * k) = elems i ! k \<and> elems d ! (2 * k + 1) = elems m ! k)"
    if "shape i = [h, w] \<and> shape m = [h, w] \<and> length (elems i) = h * w \<and> length (elems m) = h * w"
    using that dstack_two_channels[of i h w m] by blast
  have run: "nn_predict_imt be c1 c2 s tc =
           (case model_predict be (expand_dims0 x) of
              Inl e \<Rightarrow> Inl e
            | Inr pred \<Rightarrow> unpack_heads tc pred 0 [])
       \<and> shape (expand_dims0 x) = 1 # shape x
       \<and> elems (expand_dims0 x) = elems x"
    if "nn_input be c1 c2 s = Inr x"
    using that by (simp add: nn_predict_imt_def expand_dims0_def)
  show ?thesis
    using load one both stack run by blast
qed

text \<open>
  The theorem on the backend whose images depend on the path: the image \<^verbatim>\<open>a.png\<close> with
  the bytes 255 and 51, the mask \<^verbatim>\<open>b_mask.png\<close> with the bytes 51 and 153, alone and
  together.
\<close>

theorem nn_input_construction_witness:
  "imread path_backend ''a.png'' = Some \<lparr>shape = [2, 1], elems = [255, 51]\<rparr>
   \<and> load_gray path_backend (CStr ''a.png'') [1, 2] = Inr \<lparr>shape = [1, 2], elems = [1, 1 / 5]\<rparr>
   \<and> load_gray path_backend (CStr ''b_mask.png'') [1, 2] = Inr \<lparr>shape = [1, 2], elems = [1 / 5, 3 / 5]\<rparr>
   \<and> nn_input path_backend (CStr ''a.png'') CNone [1, 2] = Inr \<lparr>shape = [1, 2], elems = [1, 1 / 5]\<rparr>
   \<and> nn_input path_backend CNone (CStr ''a.png'') [1, 2] = Inr \<lparr>shape = [1, 2], elems = [1, 1 / 5]\<rparr>
   \<and> nn_input path_backend (CStr ''a.png'') (CStr ''b_mask.png'') [1, 2] =
       Inr \<lparr>shape = [1, 2, 2], elems = [1, 1 / 5, 1 / 5, 3 / 5]\<rparr>
   \<and> nn_predict_imt path_backend (CStr ''a.png'') (CStr ''b_mask.png'') [1, 2] example_targets =
       Inr [(''imt_max'', \<lparr>shape = [], elems = [1]\<rparr>), (''plaque'', \<lparr>shape = [], elems = [3 / 5]\<rparr>)]
   \<and> shape (expand_dims0 \<lparr>shape = [1, 2, 2], elems = [1, 1 / 5, 1 / 5, 3 / 5 :: real]\<rparr>) = [1, 1, 2, 2]"
  using nn_input_construction [of path_backend "''a.png''" "\<lparr>shape = [2, 1], elems = [255, 51]\<rparr>"
      "[1, 2]" "CStr ''a.png''" "CStr ''a.png''" "CStr ''b_mask.png''"
      "\<lparr>shape = [1, 2], elems = [1, 1 / 5]\<rparr>" "\<lparr>shape = [1, 2], elems = [1 / 5, 3 / 5]\<rparr>" 1 2
      "\<lparr>shape = [1, 2, 2], elems = [1, 1 / 5, 1 / 5, 3 / 5]\<rparr>" example_targets]
  by (simp add: path_backend_def load_gray_def normalize255_def nd_map_def nn_input_def
      dstack_def expand_dims0_def nn_predict_imt_def example_targets_def pred_item_def
      squeeze_def upt_rec)

lemma update_fresh:
  "k \<notin> fst ` set al \<Longrightarrow> AList.update k v al = al @ [(k, v)]"
  by (induction al) auto

lemma enabled_keys_Cons:
  "enabled_keys ((key, v) # rest) = (if predict v then key # enabled_keys rest else enabled_keys rest)"
  by (simp add: enabled_keys_def)

lemma enabled_keys_subset: "set (enabled_keys tc) \<subseteq> fst ` set tc"
  by (auto simp: enabled_keys_def)

lemma distinct_enabled_keys: "distinct (map fst tc) \<Longrightarrow> distinct (enabled_keys tc)"
  by (simp add: enabled_keys_def distinct_map_filter)

lemma unpack_heads_result:
  assumes "distinct (map fst tc)"
    and "fst ` set tc \<inter> fst ` set init = {}"
    and "unpack_heads tc pred count init = Inr result"
  shows "\<exists>hs. length hs = length (enabled_keys tc)
           \<and> (\<forall>k < length hs. pred_item pred (count + k) = Inr (hs ! k))
           \<and> result = init @ zip (enabled_keys tc) (map squeeze hs)"
  using assms
proof (induction tc pred count init rule: unpack_heads.induct)
  case (1 pred count result)
  then show ?case by (simp add: enabled_keys_def)
next
  case (2 key v rest pred count init)
  show ?case
  proof (cases "predict v")
    case True
    with "2.prems"(3) obtain h where h: "pred_item pred count = Inr h"
      and rec: "unpack_heads rest pred (count + 1) (AList.update key (squeeze h) init) = Inr result"
      by (auto split: sum.splits)
    have fresh: "key \<notin> fst ` set init"
      using "2.prems"(2) by auto
    have upd: "AList.update key (squeeze h) init = init @ [(key, squeeze h)]"
      using fresh by (rule update_fresh)
    have d: "distinct (map fst rest)" and kn: "key \<notin> fst ` set rest"
      using "2.prems"(1) by auto
    have disj: "fst ` set rest \<inter> fst ` set (AList.update key (squeeze h) init) = {}"
      using "2.prems"(2) kn unfolding upd by auto
    from "2.IH"(1)[OF True h d disj rec]
    obtain hs where hs: "length hs = length (enabled_keys rest)"
      "\<forall>k < length hs. pred_item pred (count + 1 + k) = Inr (hs ! k)"
      "result = AList.update key (squeeze h) init @ zip (enabled_keys rest) (map squeeze hs)"
      by blast
    have "\<forall>k < length (h # hs). pred_item pred (count + k) = Inr ((h # hs) ! k)"
    proof (intro allI impI)
      fix k assume "k < length (h # hs)"
      then show "pred_item pred (count + k) = Inr ((h # hs) ! k)"
        using h hs(2) by (cases k) auto
    qed
    then show ?thesis
      using hs True unfolding upd
      by (intro exI[of _ "h # hs"]) (simp add: enabled_keys_Cons)
  next
    case False
    with "2.prems"(3) have rec: "unpack_heads rest pred count init = Inr result"
      by simp
    have d: "distinct (map fst rest)"
      using "2.prems"(1) by auto
    have disj: "fst ` set rest \<inter> fst ` set init = {}"
      using "2.prems"(2) by auto
    from "2.IH"(2)[OF False d disj rec] show ?thesis
      using False by (simp add: enabled_keys_Cons)
  qed
qed

lemma unpack_heads_total:
  assumes "\<forall>k < length (enabled_keys tc). \<exists>h. pred_item pred (count + k) = Inr h"
  shows "\<exists>result. unpack_heads tc pred count init = Inr result"
  using assms
proof (induction tc pred count init rule: unpack_heads.induct)
  case (1 pred count result)
  then show ?case by simp
next
  case (2 key v rest pred count init)
  show ?case
  proof (cases "predict v")
    case True
    from "2.prems" True obtain h where h: "pred_item pred count = Inr h"
      by (auto simp: enabled_keys_Cons)
    have "\<forall>k < length (enabled_keys rest). \<exists>h. pred_item pred (count + 1 + k) = Inr h"
    proof (intro allI impI)
      fix k assume "k < length (enabled_keys rest)"
      then have "Suc k < length (enabled_keys ((key, v) # rest))"
        using True by (simp add: enabled_keys_Cons)
      then show "\<exists>h. pred_item pred (count + 1 + k) = Inr h"
        using "2.prems" by (metis add.assoc plus_1_eq_Suc)
    qed
    from "2.IH"(1)[OF True h this] show ?thesis
      using True h by simp
  next
    case False
    with "2.prems" have "\<forall>k < length (enabled_keys rest). \<exists>h. pred_item pred (count + k) = Inr h"
      by (simp add: enabled_keys_Cons)
    from "2.IH"(2)[OF False this] show ?thesis
      using False by simp
  qed
qed

lemma zip_take_right: "zip xs (take (length xs) ys) = zip xs ys"
proof (induction xs arbitrary: ys)
  case Nil
  then show ?case by simp
next
  case (Cons x xs)
  then show ?case by (cases ys) simp_all
qed

lemma unpack_heads_error:
  "unpack_heads tc (Heads hs) count init = Inl e \<Longrightarrow> e = IndexError"
proof (induction tc "Heads hs" count init rule: unpack_heads.induct)
  case (1 count result)
  then show ?case by simp
next
  case (2 key v rest count init)
  then show ?case
    by (auto simp: pred_item_def split: if_splits sum.splits)
qed

lemma disabled_key_not_enabled:
  assumes "distinct (map fst tc)" "(key, v) \<in> set tc" "\<not> predict v"
  shows "key \<notin> set (enabled_keys tc)"
  using assms
proof (induction tc)
  case Nil
  then show ?case by simp
next
  case (Cons a tc)
  obtain k' v' where a: "a = (k', v')" by (cases a)
  show ?case
  proof (cases "(key, v) = a")
    case True
    then have "key \<notin> fst ` set tc"
      using Cons.prems(1) a by auto
    then show ?thesis
      using True Cons.prems(3) a enabled_keys_subset[of tc] by (auto simp: enabled_keys_Cons)
  next
    case False
    then have "(key, v) \<in> set tc"
      using Cons.prems(2) by simp
    moreover have "key \<noteq> k'"
      using Cons.prems(1) calculation a by (auto simp: image_iff)
    ultimately show ?thesis
      using Cons a by (auto simp: enabled_keys_Cons)
  qed
qed

text \<open>
  Claim C4. When the input is built and the model answers with the list of heads
  \<open>hs\<close>, \<^verbatim>\<open>nn_predict_imt\<close> returns a mapping exactly when there are at least as many
  heads as enabled targets (IndexError otherwise). The keys of the mapping are the names
  with \<^verbatim>\<open>predict\<close> true, the \<open>k\<close>-th of them in declaration order is bound to the
  squeezed \<open>k\<close>-th head, and no name with \<^verbatim>\<open>predict\<close> false is a key.
\<close>

theorem nn_predict_imt_mapping:
  assumes "distinct (map fst tc)"
    and "nn_input be img_path mask_path input_shape = Inr x"
    and "model_predict be (expand_dims0 x) = Inr (Heads hs)"
  shows "(length (enabled_keys tc) \<le> length hs \<longrightarrow>
            nn_predict_imt be img_path mask_path input_shape tc =
              Inr (zip (enabled_keys tc) (map squeeze hs)))
       \<and> (length hs < length (enabled_keys tc) \<longrightarrow>
            nn_predict_imt be img_path mask_path input_shape tc = Inl IndexError)
       \<and> (\<forall>result. nn_predict_imt be img_path mask_path input_shape tc = Inr result \<longrightarrow>
            fst ` set result = set (enabled_keys tc)
          \<and> (\<forall>k < length (enabled_keys tc).
                k < length hs \<and> map_of result (enabled_keys tc ! k) = Some (squeeze (hs ! k)))
          \<and> (\<forall>(key, v) \<in> set tc. \<not> predict v \<longrightarrow> key \<notin> fst ` set result))"
proof -
  let ?ks = "enabled_keys tc"
  have run: "nn_predict_imt be img_path mask_path input_shape tc = unpack_heads tc (Heads hs) 0 []"
    using assms(2,3) by (simp add: nn_predict_imt_def)
  have dk: "distinct ?ks"
    using assms(1) by (rule distinct_enabled_keys)
  have shape_of: "result = zip ?ks (map squeeze hs) \<and> length ?ks \<le> length hs"
    if r: "unpack_heads tc (Heads hs) 0 [] = Inr result" for result
  proof -
    from unpack_heads_result[OF assms(1) _ r]
    obtain hs' where hs': "length hs' = length ?ks"
      "\<forall>k < length hs'. pred_item (Heads hs) (0 + k) = Inr (hs' ! k)"
      "result = [] @ zip ?ks (map squeeze hs')"
      by auto
    have nth: "k < length hs \<and> hs' ! k = hs ! k" if "k < length hs'" for k
      using hs'(2) that by (auto simp: pred_item_def split: if_splits)
    have le: "length hs' \<le> length hs"
    proof (cases hs')
      case Nil
      then show ?thesis by simp
    next
      case (Cons a list)
      then have "length hs' - 1 < length hs'" by simp
      from nth[OF this] show ?thesis
        using Cons by auto
    qed
    have "hs' = take (length hs') hs"
      using nth le by (intro nth_equalityI) auto
    then have "zip ?ks (map squeeze hs') = zip ?ks (map squeeze (take (length ?ks) hs))"
      using hs'(1) by simp
    also have "\<dots> = zip ?ks (map squeeze hs)"
      by (simp add: take_map [symmetric] zip_take_right del: take_map)
    finally show ?thesis
      using hs'(1,3) le by simp
  qed
  have enough: "unpack_heads tc (Heads hs) 0 [] = Inr (zip ?ks (map squeeze hs))"
    if "length ?ks \<le> length hs"
  proof -
    have "\<forall>k < length ?ks. \<exists>h. pred_item (Heads hs) (0 + k) = Inr h"
      using that by (simp add: pred_item_def)
    from unpack_heads_total[OF this, of "[]"] obtain result
      where "unpack_heads tc (Heads hs) 0 [] = Inr result" by blast
    then show ?thesis
      using shape_of by simp
  qed
  have short: "unpack_heads tc (Heads hs) 0 [] = Inl IndexError"
    if "length hs < length ?ks"
  proof (cases "unpack_heads tc (Heads hs) 0 []")
    case (Inl e)
    then show ?thesis
      using unpack_heads_error by simp
  next
    case (Inr result)
    then show ?thesis
      using shape_of that by fastforce
  qed
  have props: "fst ` set result = set ?ks
          \<and> (\<forall>k < length ?ks. k < length hs \<and> map_of result (?ks ! k) = Some (squeeze (hs ! k)))
          \<and> (\<forall>(key, v) \<in> set tc. \<not> predict v \<longrightarrow> key \<notin> fst ` set result)"
    if r: "unpack_heads tc (Heads hs) 0 [] = Inr result" for result
  proof -
    from shape_of[OF r] have res: "result = zip ?ks (map squeeze hs)"
      and le: "length ?ks \<le> length hs" by simp_all
    have res': "result = zip ?ks (map squeeze (take (length ?ks) hs))"
      unfolding res by (simp add: take_map [symmetric] zip_take_right del: take_map)
    have len: "length (map squeeze (take (length ?ks) hs)) = length ?ks"
      using le by simp
    have keys: "fst ` set result = set ?ks"
      unfolding res' using len by (metis map_fst_zip set_map)
    have vals: "k < length hs \<and> map_of result (?ks ! k) = Some (squeeze (hs ! k))"
      if "k < length ?ks" for k
    proof -
      have "map_of result (?ks ! k) = Some (map squeeze (take (length ?ks) hs) ! k)"
        unfolding res' using len dk that by (intro map_of_zip_nth) simp_all
      then show ?thesis
        using that le by simp
    qed
    have "key \<notin> fst ` set result" if "(key, v) \<in> set tc" "\<not> predict v" for key v
      unfolding keys using disabled_key_not_enabled[OF assms(1) that] .
    then show ?thesis
      using keys vals by blast
  qed
  show ?thesis
    unfolding run using enough short props by blast
qed

text \<open>The theorem on the example backend and the two targets of the example scenario.\<close>

theorem nn_predict_imt_mapping_witness:
  "distinct (map fst example_targets)
   \<and> nn_input example_backend (CStr ''img.png'') CNone [1, 1] = Inr \<lparr>shape = [1, 1], elems = [1]\<rparr>
   \<and> nn_predict_imt example_backend (CStr ''img.png'') CNone [1, 1] example_targets =
       Inr [(''imt_max'', \<lparr>shape = [], elems = [1 / 2]\<rparr>), (''plaque'', \<lparr>shape = [], elems = [1]\<rparr>)]"
proof -
  have d: "distinct (map fst example_targets)"
    by (simp add: example_targets_def)
  have i: "nn_input example_backend (CStr ''img.png'') CNone [1, 1] = Inr \<lparr>shape = [1, 1], elems = [1]\<rparr>"
    by (simp add: nn_input_def load_gray_def example_backend_def normalize255_def nd_map_def)
  have m: "model_predict example_backend (expand_dims0 \<lparr>shape = [1, 1], elems = [1]\<rparr>) =
      Inr (Heads [\<lparr>shape = [1, 1], elems = [1 / 2]\<rparr>, \<lparr>shape = [1, 1], elems = [1]\<rparr>])"
    by (simp add: example_backend_def)
  show ?thesis
    using nn_predict_imt_mapping[OF d i m] d i
    by (simp add: example_targets_def enabled_keys_def squeeze_def)
qed

text \<open>
  Claim C7. The input built from a path given as \<^verbatim>\<open>img_path\<close> alone is the input built
  from the same path given as \<^verbatim>\<open>mask_path\<close> alone, so the two calls return the same
  result for one model.
\<close>

theorem nn_predict_imt_path_swap:
  "nn_input be p CNone input_shape = nn_input be CNone p input_shape
   \<and> nn_predict_imt be p CNone input_shape tc = nn_predict_imt be CNone p input_shape tc"
proof -
  have "nn_input be p CNone input_shape = nn_input be CNone p input_shape"
    by (cases "load_gray be p input_shape") (simp_all add: nn_input_def)
  then show ?thesis
    by (simp add: nn_predict_imt_def)
qed

section \<open>Properties of the table operations and of the orchestrator\<close>

lemma sum_mapM_list_all2:
  "sum_mapM f xs = Inr ys \<longleftrightarrow> list_all2 (\<lambda>x y. f x = Inr y) xs ys"
proof (induction xs arbitrary: ys)
  case Nil
  then show ?case by auto
next
  case (Cons x xs)
  have ih: "list_all2 (\<lambda>x y. f x = Inr y) xs zs = (sum_mapM f xs = Inr zs)" for zs
    using Cons.IH[of zs] by simp
  show ?case
    by (auto simp: list_all2_Cons1 ih split: sum.splits)
qed

lemma sum_mapM_nth:
  "sum_mapM f xs = Inr ys \<longleftrightarrow>
     length ys = length xs \<and> (\<forall>i < length xs. f (xs ! i) = Inr (ys ! i))"
  by (auto simp: sum_mapM_list_all2 list_all2_conv_all_nth)

lemma sum_mapM_total:
  assumes "\<forall>x \<in> set xs. \<exists>y. f x = Inr y"
  shows "\<exists>ys. sum_mapM f xs = Inr ys"
  using assms by (induction xs) (auto split: sum.splits)

lemma df_get_set_same:
  "df_set_column df name vs = Inr df' \<Longrightarrow> df_get_column df' name = Inr vs"
  by (auto simp: df_set_column_def df_get_column_def update_conv' split: if_splits)

lemma df_get_set_other:
  "df_set_column df name vs = Inr df' \<Longrightarrow> other \<noteq> name \<Longrightarrow>
     df_get_column df' other = df_get_column df other"
  by (auto simp: df_set_column_def df_get_column_def update_conv' split: if_splits)

lemma df_set_index:
  "df_set_column df name vs = Inr df' \<Longrightarrow> df_index df' = df_index df"
  by (auto simp: df_set_column_def split: if_splits)

text \<open>
  Claim C6. When the column \<^verbatim>\<open>gt_imt_max\<close> holds numbers, the table gets the column
  \<^verbatim>\<open>gt_plaque\<close> whose cell in every row is 1 when the row's \<^verbatim>\<open>gt_imt_max\<close> is at least
  1.5 and 0 otherwise (also for NaN); the index is unchanged.
\<close>

theorem gt_plaque_threshold:
  assumes "df_get_column df ''gt_imt_max'' = Inr vs"
    and "length vs = length (df_index df)"
    and "\<forall>c \<in> set vs. (\<exists>f. c = CNum f) \<or> (\<exists>n. c = CInt n)"
  shows "\<exists>df' ls. add_gt_plaque df = Inr df'
           \<and> df_index df' = df_index df
           \<and> df_get_column df' ''gt_plaque'' = Inr ls
           \<and> length ls = length vs
           \<and> (\<forall>r < length vs.
                 (\<forall>x. vs ! r = CNum (Fin x) \<longrightarrow> ls ! r = CInt (if 3 / 2 \<le> x then 1 else 0))
               \<and> (vs ! r = CNum NaN \<longrightarrow> ls ! r = CInt 0)
               \<and> (\<forall>n. vs ! r = CInt n \<longrightarrow> ls ! r = CInt (if 3 / 2 \<le> real_of_int n then 1 else 0)))"
proof -
  have "\<forall>c \<in> set vs. \<exists>l. plaque_label c = Inr l"
    using assms(3) by (auto simp: plaque_label_def)
  then obtain labels where lab: "sum_mapM plaque_label vs = Inr labels"
    using sum_mapM_total by blast
  then have len: "length labels = length vs"
    and nth: "\<And>r. r < length vs \<Longrightarrow> plaque_label (vs ! r) = Inr (labels ! r)"
    by (simp_all add: sum_mapM_nth)
  obtain df' where set: "df_set_column df ''gt_plaque'' (map CInt labels) = Inr df'"
    using len assms(2) by (simp add: df_set_column_def)
  have run: "add_gt_plaque df = Inr df'"
    using assms(1) lab set by (simp add: add_gt_plaque_def)
  have cells: "(\<forall>x. vs ! r = CNum (Fin x) \<longrightarrow> map CInt labels ! r = CInt (if 3 / 2 \<le> x then 1 else 0))
               \<and> (vs ! r = CNum NaN \<longrightarrow> map CInt labels ! r = CInt 0)
               \<and> (\<forall>n. vs ! r = CInt n \<longrightarrow> map CInt labels ! r = CInt (if 3 / 2 \<le> real_of_int n then 1 else 0))"
    if "r < length vs" for r
    using nth[OF that] that len by (auto simp: plaque_label_def)
  show ?thesis
    using run df_set_index[OF set] df_get_set_same[OF set] len cells
    by (intro exI[of _ df'] exI[of _ "map CInt labels"]) simp
qed

text \<open>The theorem on the example table: measurements 2 and 1 give the labels 1 and 0.\<close>

theorem gt_plaque_threshold_witness:
  "df_get_column example_df ''gt_imt_max'' = Inr [CNum (Fin 2), CNum (Fin 1)]
   \<and> (\<exists>df'. add_gt_plaque example_df = Inr df'
         \<and> df_get_column df' ''gt_plaque'' = Inr [CInt 1, CInt 0])"
proof -
  have g: "df_get_column example_df ''gt_imt_max'' = Inr [CNum (Fin 2), CNum (Fin 1)]"
    by (simp add: example_df_def df_get_column_def)
  have l: "length [CNum (Fin 2), CNum (Fin 1)] = length (df_index example_df)"
    by (simp add: example_df_def)
  have n: "\<forall>c \<in> set [CNum (Fin 2), CNum (Fin 1)]. (\<exists>f. c = CNum f) \<or> (\<exists>n. c = CInt n)"
    by simp
  from gt_plaque_threshold[OF g l n] obtain df' ls where
    r: "add_gt_plaque example_df = Inr df'" "df_get_column df' ''gt_plaque'' = Inr ls"
       "length ls = 2" "ls ! 0 = CInt 1" "ls ! 1 = CInt 0"
    by (auto simp: numeral_2_eq_2 less_Suc_eq)
  have "ls = [CInt 1, CInt 0]"
    using r(3,4,5) by (intro nth_equalityI) (auto simp: less_Suc_eq numeral_2_eq_2)
  then show ?thesis
    using g r(1,2) by blast
qed

text \<open>
  Claim C5. The two checks of the orchestrator raise SystemError exactly when the GPU is
  required and the device is not \<^verbatim>\<open>/device:GPU:0\<close>, otherwise NotImplementedError
  exactly when the input type is none of \<^verbatim>\<open>img\<close>, \<^verbatim>\<open>mask\<close> and \<^verbatim>\<open>img_and_mask\<close>, and
  nothing else. Otherwise they select \<^verbatim>\<open>complete_path\<close> for \<^verbatim>\<open>img\<close>, \<^verbatim>\<open>mask_path\<close> for
  \<^verbatim>\<open>mask\<close> and \<^verbatim>\<open>img_and_mask\<close> for itself; under these columns a row supplies its
  image path alone, its mask path alone, and both.
\<close>

theorem orchestrator_errors:
  "(device_and_input_column force_gpu device_name input_type = Inl SystemError
      \<longleftrightarrow> force_gpu \<and> device_name \<noteq> ''/device:GPU:0'')
   \<and> (device_and_input_column force_gpu device_name input_type = Inl NotImplementedError
      \<longleftrightarrow> \<not> (force_gpu \<and> device_name \<noteq> ''/device:GPU:0'')
           \<and> input_type \<notin> {''img'', ''mask'', ''img_and_mask''})
   \<and> (\<forall>e. device_and_input_column force_gpu device_name input_type = Inl e
         \<longrightarrow> e = SystemError \<or> e = NotImplementedError)
   \<and> (\<not> (force_gpu \<and> device_name \<noteq> ''/device:GPU:0'') \<longrightarrow>
         (input_type = ''img'' \<longrightarrow>
            device_and_input_column force_gpu device_name input_type = Inr ''complete_path'')
       \<and> (input_type = ''mask'' \<longrightarrow>
            device_and_input_column force_gpu device_name input_type = Inr ''mask_path'')
       \<and> (input_type = ''img_and_mask'' \<longrightarrow>
            device_and_input_column force_gpu device_name input_type = Inr ''img_and_mask''))
   \<and> row_img_path df ''complete_path'' r = row_cell df r ''complete_path''
   \<and> row_mask_path df ''complete_path'' r = Inr CNone
   \<and> row_img_path df ''mask_path'' r = Inr CNone
   \<and> row_mask_path df ''mask_path'' r = row_cell df r ''mask_path''
   \<and> row_img_path df ''img_and_mask'' r = row_cell df r ''complete_path''
   \<and> row_mask_path df ''img_and_mask'' r = row_cell df r ''mask_path''"
  by (simp add: device_and_input_column_def check_device_def select_input_column_def
      row_img_path_def row_mask_path_def)

text \<open>The theorem at a missing GPU, at each of the three input types and at an unknown one.\<close>

theorem orchestrator_errors_witness:
  "device_and_input_column True '''' ''img'' = Inl SystemError
   \<and> device_and_input_column True ''/device:GPU:0'' ''img'' = Inr ''complete_path''
   \<and> device_and_input_column False '''' ''mask'' = Inr ''mask_path''
   \<and> device_and_input_column False '''' ''img_and_mask'' = Inr ''img_and_mask''
   \<and> device_and_input_column False '''' ''both'' = Inl NotImplementedError"
  using orchestrator_errors [of True "''''" "''img''"]
    orchestrator_errors [of True "''/device:GPU:0''" "''img''"]
    orchestrator_errors [of False "''''" "''mask''"]
    orchestrator_errors [of False "''''" "''img_and_mask''"]
    orchestrator_errors [of False "''''" "''both''"]
  by simp

section \<open>Properties of the full-dataframe predictor\<close>

lemma predicted_name_inj [simp]: "predicted_name a = predicted_name b \<longleftrightarrow> a = b"
  by (simp add: predicted_name_def)

lemma predicted_name_not_nn [simp]:
  "predicted_name a \<noteq> ''nn_prediction''" "''nn_prediction'' \<noteq> predicted_name a"
  by (simp_all add: predicted_name_def)

lemma with_predicted_Nil [simp]: "with_predicted_columns preds [] cols = cols"
  by (simp add: with_predicted_columns_def)

lemma with_predicted_Cons [simp]:
  "with_predicted_columns preds (k # ks) cols =
     with_predicted_columns preds ks
       (AList.update (predicted_name k) (component_column k preds) cols)"
  by (simp add: with_predicted_columns_def)

lemma with_predicted_other:
  "n \<notin> predicted_name ` set ks \<Longrightarrow>
     map_of (with_predicted_columns preds ks cols) n = map_of cols n"
  by (induction ks arbitrary: cols) (auto simp: update_conv')

lemma with_predicted_key:
  "key \<in> set ks \<Longrightarrow>
     map_of (with_predicted_columns preds ks cols) (predicted_name key) =
       Some (component_column key preds)"
proof (induction ks arbitrary: cols)
  case Nil
  then show ?case by simp
next
  case (Cons k ks)
  show ?case
  proof (cases "key \<in> set ks")
    case True
    then show ?thesis
      using Cons.IH by simp
  next
    case False
    then have k: "key = k"
      using Cons.prems by simp
    have "predicted_name key \<notin> predicted_name ` set ks"
      using False by auto
    then show ?thesis
      by (simp add: with_predicted_other update_conv' k)
  qed
qed

lemma with_predicted_names:
  "distinct ks \<Longrightarrow>
     map fst (with_predicted_columns preds ks cols) =
       map fst cols @ filter (\<lambda>n. n \<notin> set (map fst cols)) (map predicted_name ks)"
proof (induction ks arbitrary: cols)
  case Nil
  then show ?case by simp
next
  case (Cons k ks)
  let ?cols' = "AList.update (predicted_name k) (component_column k preds) cols"
  have d: "distinct ks" and kn: "k \<notin> set ks"
    using Cons.prems by simp_all
  have ih: "map fst (with_predicted_columns preds ks ?cols') =
       map fst ?cols' @ filter (\<lambda>n. n \<notin> set (map fst ?cols')) (map predicted_name ks)"
    using Cons.IH[OF d] .
  show ?case
  proof (cases "predicted_name k \<in> set (map fst cols)")
    case True
    then have "map fst ?cols' = map fst cols"
      by (simp add: update_keys)
    then show ?thesis
      using ih True by simp
  next
    case False
    then have names: "map fst ?cols' = map fst cols @ [predicted_name k]"
      by (simp add: update_keys)
    have "filter (\<lambda>n. n \<notin> set (map fst ?cols')) (map predicted_name ks) =
        filter (\<lambda>n. n \<notin> set (map fst cols)) (map predicted_name ks)"
      unfolding names using kn by (intro filter_cong refl) auto
    then show ?thesis
      using ih False names by simp
  qed
qed

lemma with_predicted_fresh:
  "distinct ks \<Longrightarrow> \<forall>k \<in> set ks. predicted_name k \<notin> fst ` set cols \<Longrightarrow>
     with_predicted_columns preds ks cols =
       cols @ map (\<lambda>k. (predicted_name k, component_column k preds)) ks"
proof (induction ks arbitrary: cols)
  case Nil
  then show ?case by simp
next
  case (Cons k ks)
  have u: "AList.update (predicted_name k) (component_column k preds) cols =
      cols @ [(predicted_name k, component_column k preds)]"
    using Cons.prems(2) by (intro update_fresh) simp
  have "\<forall>k' \<in> set ks. predicted_name k' \<notin> fst ` set (cols @ [(predicted_name k, component_column k preds)])"
    using Cons.prems by auto
  then show ?case
    using Cons.IH[of "cols @ [(predicted_name k, component_column k preds)]"] Cons.prems(1) u
    by simp
qed

lemma with_predicted_distinct:
  "distinct (map fst cols) \<Longrightarrow> distinct (map fst (with_predicted_columns preds ks cols))"
  by (induction ks arbitrary: cols) (simp_all add: distinct_update)

lemma dict_items_column:
  assumes "\<forall>d \<in> set preds. \<exists>a. map_of d key = Some a"
  shows "sum_mapM (dict_item key) (map CDict preds) = Inr (component_column key preds)"
proof (subst sum_mapM_nth, intro conjI allI impI)
  show "length (component_column key preds) = length (map CDict preds)"
    by (simp add: component_column_def)
next
  fix i assume "i < length (map CDict preds)"
  then have i: "i < length preds"
    by simp
  then obtain a where "map_of (preds ! i) key = Some a"
    using assms nth_mem by blast
  then show "dict_item key (map CDict preds ! i) = Inr (component_column key preds ! i)"
    using i by (simp add: component_column_def dict_item_def)
qed

lemma explode_columns_ok:
  assumes "df_get_column df ''nn_prediction'' = Inr (map CDict preds)"
    and "length preds = length (df_index df)"
    and "\<forall>d \<in> set preds. \<forall>key \<in> set (enabled_keys tc). \<exists>a. map_of d key = Some a"
  shows "explode_columns tc df =
      (None, df\<lparr>df_columns := with_predicted_columns preds (enabled_keys tc) (df_columns df)\<rparr>)"
  using assms
proof (induction tc df rule: explode_columns.induct)
  case (1 df)
  then show ?case by (simp add: enabled_keys_def)
next
  case (2 key v rest df)
  show ?case
  proof (cases "predict v")
    case True
    have items: "sum_mapM (dict_item key) (map CDict preds) = Inr (component_column key preds)"
      using "2.prems"(3) True by (intro dict_items_column) (simp add: enabled_keys_Cons)
    let ?df' = "df\<lparr>df_columns := AList.update (predicted_name key) (component_column key preds) (df_columns df)\<rparr>"
    have set: "df_set_column df (predicted_name key) (component_column key preds) = Inr ?df'"
      using "2.prems"(2) by (simp add: df_set_column_def component_column_def)
    have g: "df_get_column ?df' ''nn_prediction'' = Inr (map CDict preds)"
      using df_get_set_other[OF set, of "''nn_prediction''"] "2.prems"(1) by simp
    have l: "length preds = length (df_index ?df')"
      using "2.prems"(2) by simp
    have k: "\<forall>d \<in> set preds. \<forall>key \<in> set (enabled_keys rest). \<exists>a. map_of d key = Some a"
      using "2.prems"(3) True by (simp add: enabled_keys_Cons)
    from "2.IH"(1)[OF True "2.prems"(1) items set g l k]
    show ?thesis
      using True "2.prems"(1) items set by (simp add: enabled_keys_Cons)
  next
    case False
    have k: "\<forall>d \<in> set preds. \<forall>key \<in> set (enabled_keys rest). \<exists>a. map_of d key = Some a"
      using "2.prems"(3) False by (simp add: enabled_keys_Cons)
    from "2.IH"(2)[OF False "2.prems"(1,2) k]
    show ?thesis
      using False by (simp add: enabled_keys_Cons)
  qed
qed

lemma nn_predict_imt_keys:
  assumes "distinct (map fst tc)"
    and "nn_predict_imt be img_path mask_path input_shape tc = Inr d"
  shows "map fst d = enabled_keys tc"
proof -
  from assms(2) obtain pred where "unpack_heads tc pred 0 [] = Inr d"
    by (auto simp: nn_predict_imt_def split: sum.splits)
  from unpack_heads_result[OF assms(1) _ this]
  obtain hs where "length hs = length (enabled_keys tc)"
    "d = [] @ zip (enabled_keys tc) (map squeeze hs)"
    by auto
  then show ?thesis
    by simp
qed

lemma predict_rows_props:
  assumes "distinct (map fst tc)"
    and "predict_rows be df input_column tc input_shape = Inr preds"
  shows "length preds = length (df_index df)"
    and "\<forall>i < length preds. row_prediction be df input_column tc input_shape i = Inr (preds ! i)"
    and "\<forall>d \<in> set preds. map fst d = enabled_keys tc"
proof -
  from assms(2) have len: "length preds = length (df_index df)"
    and nth: "\<And>i. i < length (df_index df) \<Longrightarrow>
        row_prediction be df input_column tc input_shape i = Inr (preds ! i)"
    by (simp_all add: predict_rows_def sum_mapM_nth)
  show "length preds = length (df_index df)"
    by (rule len)
  show "\<forall>i < length preds. row_prediction be df input_column tc input_shape i = Inr (preds ! i)"
    using nth len by simp
  show "\<forall>d \<in> set preds. map fst d = enabled_keys tc"
  proof
    fix d assume "d \<in> set preds"
    then obtain i where i: "i < length preds" "preds ! i = d"
      by (auto simp: in_set_conv_nth)
    then have "row_prediction be df input_column tc input_shape i = Inr d"
      using nth len by simp
    then obtain a b where "nn_predict_imt be a b input_shape tc = Inr d"
      by (auto simp: row_prediction_def split: sum.splits)
    then show "map fst d = enabled_keys tc"
      using nn_predict_imt_keys[OF assms(1)] by blast
  qed
qed

lemma predict_complete_dataframe_run:
  assumes "distinct (map fst tc)"
    and "predict_rows be (hp ref) input_column tc input_shape = Inr preds"
  shows "predict_complete_dataframe be ref input_column tc input_shape hp =
      (Inr ref,
       hp(ref := (hp ref)\<lparr>df_columns :=
             with_predicted_columns preds (enabled_keys tc)
               (AList.update ''nn_prediction'' (map CDict preds) (df_columns (hp ref)))\<rparr>))"
proof -
  let ?df1 = "(hp ref)\<lparr>df_columns := AList.update ''nn_prediction'' (map CDict preds) (df_columns (hp ref))\<rparr>"
  have len: "length preds = length (df_index (hp ref))"
    using predict_rows_props(1)[OF assms] .
  have set: "df_set_column (hp ref) ''nn_prediction'' (map CDict preds) = Inr ?df1"
    using len by (simp add: df_set_column_def)
  have g: "df_get_column ?df1 ''nn_prediction'' = Inr (map CDict preds)"
    using df_get_set_same[OF set] .
  have l: "length preds = length (df_index ?df1)"
    using len by simp
  have k: "\<forall>d \<in> set preds. \<forall>key \<in> set (enabled_keys tc). \<exists>a. map_of d key = Some a"
  proof (intro ballI)
    fix d key assume "d \<in> set preds" "key \<in> set (enabled_keys tc)"
    then have "key \<in> fst ` set d"
      using predict_rows_props(3)[OF assms] by (metis set_map)
    then show "\<exists>a. map_of d key = Some a"
      by (metis map_of_eq_None_iff not_Some_eq)
  qed
  show ?thesis
    using assms(2) set explode_columns_ok[OF g l k]
    by (simp add: predict_complete_dataframe_def)
qed

lemma predict_complete_dataframe_returned:
  assumes "predict_complete_dataframe be ref input_column tc input_shape hp = (Inr r, hp')"
  shows "\<exists>preds. predict_rows be (hp ref) input_column tc input_shape = Inr preds"
proof (cases "predict_rows be (hp ref) input_column tc input_shape")
  case (Inl e)
  then show ?thesis
    using assms by (simp add: predict_complete_dataframe_def)
next
  case (Inr preds)
  then show ?thesis by blast
qed

lemma example_row_prediction:
  "row_prediction example_backend example_df ''complete_path'' example_targets s r =
     (if r < 2 then Inr [(''imt_max'', \<lparr>shape = [], elems = [1 / 2]\<rparr>), (''plaque'', \<lparr>shape = [], elems = [1]\<rparr>)]
      else Inl IndexError)"
  by (simp add: row_prediction_def row_img_path_def row_mask_path_def row_cell_def example_df_def
      nn_predict_imt_def nn_input_def load_gray_def example_backend_def normalize255_def nd_map_def
      expand_dims0_def example_targets_def pred_item_def squeeze_def less_Suc_eq numeral_2_eq_2)

lemma example_predict_rows:
  "predict_rows example_backend example_df ''complete_path'' example_targets s =
     Inr [[(''imt_max'', \<lparr>shape = [], elems = [1 / 2]\<rparr>), (''plaque'', \<lparr>shape = [], elems = [1]\<rparr>)],
          [(''imt_max'', \<lparr>shape = [], elems = [1 / 2]\<rparr>), (''plaque'', \<lparr>shape = [], elems = [1]\<rparr>)]]"
proof -
  have "[0..<length (df_index example_df)] = [0, 1]"
    by (simp add: example_df_def upt_rec)
  then show ?thesis
    by (simp add: predict_rows_def example_row_prediction)
qed

lemma predicted_names_card:
  assumes "distinct ks" "distinct names" "predicted_name ` set ks \<subseteq> set names"
  shows "length (filter (\<lambda>n. n \<in> predicted_name ` set ks) names) = length ks"
proof -
  have "length (filter (\<lambda>n. n \<in> predicted_name ` set ks) names) =
      card ({n. n \<in> predicted_name ` set ks} \<inter> set names)"
    using assms(2) by (rule distinct_length_filter)
  also have "{n. n \<in> predicted_name ` set ks} \<inter> set names = predicted_name ` set ks"
    using assms(3) by auto
  also have "card (predicted_name ` set ks) = card (set ks)"
    by (intro card_image inj_onI) simp
  also have "\<dots> = length ks"
    using assms(1) by (rule distinct_card)
  finally show ?thesis .
qed

lemma row_prediction_paths:
  assumes "row_prediction be df input_column tc input_shape i = Inr d"
  shows "\<exists>img_path mask_path.
      nn_predict_imt be img_path mask_path input_shape tc = Inr d
    \<and> (if input_column = ''mask_path'' then img_path = CNone
        else \<exists>col. map_of (df_columns df) ''complete_path'' = Some col
               \<and> i < length col \<and> img_path = col ! i)
    \<and> (if input_column = ''complete_path'' then mask_path = CNone
        else \<exists>col. map_of (df_columns df) ''mask_path'' = Some col
               \<and> i < length col \<and> mask_path = col ! i)"
proof -
  from assms obtain img_path mask_path where
    i: "row_img_path df input_column i = Inr img_path"
    and m: "row_mask_path df input_column i = Inr mask_path"
    and p: "nn_predict_imt be img_path mask_path input_shape tc = Inr d"
    by (auto simp: row_prediction_def split: sum.splits)
  have "if input_column = ''mask_path'' then img_path = CNone
        else \<exists>col. map_of (df_columns df) ''complete_path'' = Some col
               \<and> i < length col \<and> img_path = col ! i"
    using i by (auto simp: row_img_path_def row_cell_def split: option.splits if_splits)
  moreover have "if input_column = ''complete_path'' then mask_path = CNone
        else \<exists>col. map_of (df_columns df) ''mask_path'' = Some col
               \<and> i < length col \<and> mask_path = col ! i"
    using m by (auto simp: row_mask_path_def row_cell_def split: option.splits if_splits)
  ultimately show ?thesis
    using p by blast
qed

lemma predicted_name_fun: "predicted_name = (\<lambda>key. ''predicted_'' @ key)"
  by (rule ext) (simp add: predicted_name_def)

lemma list_of_two: "length xs = 2 \<Longrightarrow> xs = [xs ! 0, xs ! 1]"
  by (cases xs; cases "tl xs") auto

lemma path_nn_predict_imt:
  "nn_predict_imt path_backend (CStr ''a.png'') (CStr ''a_mask.png'') [2] example_targets =
     Inr [(''imt_max'', \<lparr>shape = [], elems = [1]\<rparr>), (''plaque'', \<lparr>shape = [], elems = [4 / 5]\<rparr>)]"
  "nn_predict_imt path_backend (CStr ''b.png'') (CStr ''b_mask.png'') [2] example_targets =
     Inr [(''imt_max'', \<lparr>shape = [], elems = [2 / 5]\<rparr>), (''plaque'', \<lparr>shape = [], elems = [3 / 5]\<rparr>)]"
  by (simp_all add: path_backend_def load_gray_def normalize255_def nd_map_def nn_input_def
      dstack_def expand_dims0_def nn_predict_imt_def example_targets_def pred_item_def
      squeeze_def upt_rec)

lemma path_predict_rows:
  "predict_rows path_backend example_df ''img_and_mask'' example_targets [2] =
     Inr [[(''imt_max'', \<lparr>shape = [], elems = [1]\<rparr>), (''plaque'', \<lparr>shape = [], elems = [4 / 5]\<rparr>)],
          [(''imt_max'', \<lparr>shape = [], elems = [2 / 5]\<rparr>), (''plaque'', \<lparr>shape = [], elems = [3 / 5]\<rparr>)]]"
proof -
  have i: "[0..<length (df_index example_df)] = [0, Suc 0]"
    by (simp add: example_df_def upt_rec)
  have r0: "row_prediction path_backend example_df ''img_and_mask'' example_targets [2] 0 =
      nn_predict_imt path_backend (CStr ''a.png'') (CStr ''a_mask.png'') [2] example_targets"
    by (simp add: row_prediction_def row_img_path_def row_mask_path_def row_cell_def example_df_def)
  have r1: "row_prediction path_backend example_df ''img_and_mask'' example_targets [2] (Suc 0) =
      nn_predict_imt path_backend (CStr ''b.png'') (CStr ''b_mask.png'') [2] example_targets"
    by (simp add: row_prediction_def row_img_path_def row_mask_path_def row_cell_def example_df_def)
  show ?thesis
    unfolding predict_rows_def i by (simp add: r0 r1 path_nn_predict_imt)
qed

text \<open>
  Claim C8. When \<^verbatim>\<open>predict_complete_dataframe\<close> returns, it returns the table it was
  given, and the single-sample predictor was applied once to every row, in the order of
  the rows: the prediction \<open>preds ! i\<close> for row \<open>i\<close> is the result of
  \<^verbatim>\<open>nn_predict_imt\<close> on the cell of row \<open>i\<close> in the column \<^verbatim>\<open>complete_path\<close> (or
  \<^verbatim>\<open>None\<close> when the input column is \<^verbatim>\<open>mask_path\<close>) and the cell of row \<open>i\<close> in the
  column \<^verbatim>\<open>mask_path\<close> (or \<^verbatim>\<open>None\<close> when the input column is \<^verbatim>\<open>complete_path\<close>). The
  column \<^verbatim>\<open>nn_prediction\<close> of the returned table holds these predictions, and for each
  enabled target the returned table has the column \<^verbatim>\<open>predicted_<name>\<close> whose cell in
  row \<open>i\<close> is the component keyed \<^verbatim>\<open><name>\<close> of the prediction for row \<open>i\<close>. The
  names of the returned table are distinct: they are the names it had, followed by
  \<^verbatim>\<open>nn_prediction\<close> and the \<^verbatim>\<open>predicted_<name>\<close> in declaration order where the table did
  not have them yet, and as many of them are a \<^verbatim>\<open>predicted_<name>\<close> of an enabled target
  as there are enabled targets.
\<close>

theorem predict_complete_dataframe_columns:
  assumes "wf_df (hp ref)"
    and "distinct (map fst tc)"
    and "predict_complete_dataframe be ref input_column tc input_shape hp = (Inr r, hp')"
  shows "\<exists>preds.
      r = ref
    \<and> predict_rows be (hp ref) input_column tc input_shape = Inr preds
    \<and> length preds = length (df_index (hp ref))
    \<and> (\<forall>i < length preds.
          row_prediction be (hp ref) input_column tc input_shape i = Inr (preds ! i))
    \<and> (\<forall>i < length preds. \<exists>img_path mask_path.
          nn_predict_imt be img_path mask_path input_shape tc = Inr (preds ! i)
        \<and> (if input_column = ''mask_path'' then img_path = CNone
            else \<exists>col. map_of (df_columns (hp ref)) ''complete_path'' = Some col
                   \<and> i < length col \<and> img_path = col ! i)
        \<and> (if input_column = ''complete_path'' then mask_path = CNone
            else \<exists>col. map_of (df_columns (hp ref)) ''mask_path'' = Some col
                   \<and> i < length col \<and> mask_path = col ! i))
    \<and> map_of (df_columns (hp' r)) ''nn_prediction'' = Some (map CDict preds)
    \<and> (\<forall>key \<in> set (enabled_keys tc). \<exists>col.
          map_of (df_columns (hp' r)) (''predicted_'' @ key) = Some col
        \<and> df_get_column (hp' r) (predicted_name key) = Inr col
        \<and> length col = length preds
        \<and> (\<forall>i < length preds. \<exists>a. map_of (preds ! i) key = Some a \<and> col ! i = CArr a))
    \<and> distinct (map fst (df_columns (hp' r)))
    \<and> map fst (df_columns (hp' r)) =
        map fst (df_columns (hp ref)) @
        filter (\<lambda>n. n \<notin> set (map fst (df_columns (hp ref))))
          (''nn_prediction'' # map (\<lambda>key. ''predicted_'' @ key) (enabled_keys tc))
    \<and> length (filter (\<lambda>n. n \<in> (\<lambda>key. ''predicted_'' @ key) ` set (enabled_keys tc))
               (map fst (df_columns (hp' r)))) = length (enabled_keys tc)"
proof -
  let ?ks = "enabled_keys tc"
  let ?cols = "df_columns (hp ref)"
  obtain preds where rows: "predict_rows be (hp ref) input_column tc input_shape = Inr preds"
    using predict_complete_dataframe_returned[OF assms(3)] by blast
  let ?cols1 = "AList.update ''nn_prediction'' (map CDict preds) ?cols"
  let ?W = "with_predicted_columns preds ?ks ?cols1"
  have "(Inr r, hp') = (Inr ref, hp(ref := (hp ref)\<lparr>df_columns := ?W\<rparr>))"
    using predict_complete_dataframe_run[where hp = hp and ref = ref, OF assms(2) rows] assms(3) by simp
  then have r: "r = ref" and hp': "hp' = hp(ref := (hp ref)\<lparr>df_columns := ?W\<rparr>)"
    by simp_all
  have cols': "df_columns (hp' r) = ?W"
    by (simp add: r hp')
  have dk: "distinct ?ks"
    using assms(2) by (rule distinct_enabled_keys)
  have len: "length preds = length (df_index (hp ref))"
    and nth: "\<forall>i < length preds.
          row_prediction be (hp ref) input_column tc input_shape i = Inr (preds ! i)"
    and keys: "\<forall>d \<in> set preds. map fst d = ?ks"
    using predict_rows_props[OF assms(2) rows] by simp_all
  have paths: "\<forall>i < length preds. \<exists>img_path mask_path.
          nn_predict_imt be img_path mask_path input_shape tc = Inr (preds ! i)
        \<and> (if input_column = ''mask_path'' then img_path = CNone
            else \<exists>col. map_of (df_columns (hp ref)) ''complete_path'' = Some col
                   \<and> i < length col \<and> img_path = col ! i)
        \<and> (if input_column = ''complete_path'' then mask_path = CNone
            else \<exists>col. map_of (df_columns (hp ref)) ''mask_path'' = Some col
                   \<and> i < length col \<and> mask_path = col ! i)"
  proof (intro allI impI)
    fix i assume "i < length preds"
    then have "row_prediction be (hp ref) input_column tc input_shape i = Inr (preds ! i)"
      using nth by blast
    then show "\<exists>img_path mask_path.
          nn_predict_imt be img_path mask_path input_shape tc = Inr (preds ! i)
        \<and> (if input_column = ''mask_path'' then img_path = CNone
            else \<exists>col. map_of (df_columns (hp ref)) ''complete_path'' = Some col
                   \<and> i < length col \<and> img_path = col ! i)
        \<and> (if input_column = ''complete_path'' then mask_path = CNone
            else \<exists>col. map_of (df_columns (hp ref)) ''mask_path'' = Some col
                   \<and> i < length col \<and> mask_path = col ! i)"
      by (rule row_prediction_paths)
  qed
  have "''nn_prediction'' \<notin> predicted_name ` set ?ks"
    by auto
  then have "map_of ?W ''nn_prediction'' = map_of ?cols1 ''nn_prediction''"
    by (rule with_predicted_other)
  then have nn: "map_of ?W ''nn_prediction'' = Some (map CDict preds)"
    by (simp add: update_conv')
  have col: "\<exists>col. map_of ?W (''predicted_'' @ key) = Some col
        \<and> df_get_column (hp' r) (predicted_name key) = Inr col
        \<and> length col = length preds
        \<and> (\<forall>i < length preds. \<exists>a. map_of (preds ! i) key = Some a \<and> col ! i = CArr a)"
    if key: "key \<in> set ?ks" for key
  proof -
    have m: "map_of ?W (''predicted_'' @ key) = Some (component_column key preds)"
      using with_predicted_key[OF key, of preds ?cols1] by (simp add: predicted_name_def)
    then have g: "df_get_column (hp' r) (predicted_name key) = Inr (component_column key preds)"
      by (simp add: df_get_column_def cols' predicted_name_def)
    have "\<exists>a. map_of (preds ! i) key = Some a \<and> component_column key preds ! i = CArr a"
      if i: "i < length preds" for i
    proof -
      have "key \<in> fst ` set (preds ! i)"
        using keys key i by (metis nth_mem set_map)
      then obtain a where "map_of (preds ! i) key = Some a"
        by (metis map_of_eq_None_iff not_Some_eq)
      then show ?thesis
        using i by (simp add: component_column_def)
    qed
    then show ?thesis
      using m g by (simp add: component_column_def)
  qed
  have d1: "distinct (map fst ?cols1)"
    using assms(1) by (simp add: wf_df_def distinct_update)
  have dW: "distinct (map fst ?W)"
    using d1 by (rule with_predicted_distinct)
  have n1: "map fst ?cols1 =
      map fst ?cols @ filter (\<lambda>n. n \<notin> set (map fst ?cols)) [''nn_prediction'']"
    by (simp add: update_keys)
  have "filter (\<lambda>n. n \<notin> set (map fst ?cols1)) (map predicted_name ?ks) =
      filter (\<lambda>n. n \<notin> set (map fst ?cols)) (map predicted_name ?ks)"
    by (intro filter_cong refl) (auto simp: update_keys)
  then have "map fst ?W =
      map fst ?cols @ filter (\<lambda>n. n \<notin> set (map fst ?cols))
          (''nn_prediction'' # map predicted_name ?ks)"
    using with_predicted_names[OF dk, of preds ?cols1] n1 by simp
  then have names: "map fst ?W =
      map fst ?cols @ filter (\<lambda>n. n \<notin> set (map fst ?cols))
          (''nn_prediction'' # map (\<lambda>key. ''predicted_'' @ key) ?ks)"
    unfolding predicted_name_fun .
  have "predicted_name ` set ?ks \<subseteq> set (map fst ?W)"
  proof
    fix n assume "n \<in> predicted_name ` set ?ks"
    then obtain key where key: "key \<in> set ?ks" "n = predicted_name key"
      by blast
    have "map_of ?W n = Some (component_column key preds)"
      unfolding key(2) using key(1) by (rule with_predicted_key)
    then show "n \<in> set (map fst ?W)"
      by (metis map_of_eq_None_iff option.distinct(1) set_map)
  qed
  then have "length (filter (\<lambda>n. n \<in> predicted_name ` set ?ks) (map fst ?W)) = length ?ks"
    using dk dW by (intro predicted_names_card)
  then have count: "length (filter (\<lambda>n. n \<in> (\<lambda>key. ''predicted_'' @ key) ` set ?ks) (map fst ?W))
      = length ?ks"
    unfolding predicted_name_fun .
  show ?thesis
    using r rows len nth paths nn col dW names count unfolding cols'
    by (intro exI[of _ preds] conjI) blast+
qed

text \<open>
  The theorem on the example table with two rows and the two enabled targets, with the
  backend whose images depend on the path and with both paths as input: the two rows
  get different predictions, each from the row's own image and mask.
\<close>

theorem predict_complete_dataframe_columns_witness:
  "wf_df example_df
   \<and> distinct (map fst example_targets)
   \<and> fst (predict_complete_dataframe path_backend 0 ''img_and_mask'' example_targets [2]
            (\<lambda>_. example_df)) = Inr 0
   \<and> map_of (df_columns
          (snd (predict_complete_dataframe path_backend 0 ''img_and_mask'' example_targets [2]
                  (\<lambda>_. example_df)) 0)) ''predicted_imt_max'' =
        Some [CArr \<lparr>shape = [], elems = [1]\<rparr>, CArr \<lparr>shape = [], elems = [2 / 5]\<rparr>]
   \<and> map_of (df_columns
          (snd (predict_complete_dataframe path_backend 0 ''img_and_mask'' example_targets [2]
                  (\<lambda>_. example_df)) 0)) ''predicted_plaque'' =
        Some [CArr \<lparr>shape = [], elems = [4 / 5]\<rparr>, CArr \<lparr>shape = [], elems = [3 / 5]\<rparr>]
   \<and> map fst (df_columns
          (snd (predict_complete_dataframe path_backend 0 ''img_and_mask'' example_targets [2]
                  (\<lambda>_. example_df)) 0)) =
        [''complete_path'', ''mask_path'', ''gt_imt_max'', ''nn_prediction'',
         ''predicted_imt_max'', ''predicted_plaque'']"
proof -
  let ?run = "predict_complete_dataframe path_backend 0 ''img_and_mask'' example_targets [2]
      (\<lambda>_. example_df)"
  let ?d0 = "[(''imt_max'', \<lparr>shape = [], elems = [1 :: real]\<rparr>), (''plaque'', \<lparr>shape = [], elems = [4 / 5]\<rparr>)]"
  let ?d1 = "[(''imt_max'', \<lparr>shape = [], elems = [2 / 5 :: real]\<rparr>), (''plaque'', \<lparr>shape = [], elems = [3 / 5]\<rparr>)]"
  have w: "wf_df ((\<lambda>_. example_df) (0 :: nat))"
    by (simp add: wf_df_def example_df_def)
  have d: "distinct (map fst example_targets)"
    by (simp add: example_targets_def)
  have ks: "enabled_keys example_targets = [''imt_max'', ''plaque'']"
    by (simp add: example_targets_def enabled_keys_def)
  have f: "fst ?run = Inr 0"
    unfolding predict_complete_dataframe_run[where hp = "\<lambda>_. example_df" and ref = 0,
        OF d path_predict_rows]
    by simp
  then have r: "?run = (Inr 0, snd ?run)"
    by (metis prod.collapse)
  from predict_complete_dataframe_columns[OF w d r]
  obtain preds where len: "length preds = length (df_index example_df)"
    and paths: "\<forall>i < length preds. \<exists>img_path mask_path.
          nn_predict_imt path_backend img_path mask_path [2] example_targets = Inr (preds ! i)
        \<and> (if ''img_and_mask'' = ''mask_path'' then img_path = CNone
            else \<exists>col. map_of (df_columns example_df) ''complete_path'' = Some col
                   \<and> i < length col \<and> img_path = col ! i)
        \<and> (if ''img_and_mask'' = ''complete_path'' then mask_path = CNone
            else \<exists>col. map_of (df_columns example_df) ''mask_path'' = Some col
                   \<and> i < length col \<and> mask_path = col ! i)"
    and cols: "\<forall>key \<in> set (enabled_keys example_targets). \<exists>col.
          map_of (df_columns (snd ?run 0)) (''predicted_'' @ key) = Some col
        \<and> df_get_column (snd ?run 0) (predicted_name key) = Inr col
        \<and> length col = length preds
        \<and> (\<forall>i < length preds. \<exists>a. map_of (preds ! i) key = Some a \<and> col ! i = CArr a)"
    and names: "map fst (df_columns (snd ?run 0)) =
        map fst (df_columns example_df) @
        filter (\<lambda>n. n \<notin> set (map fst (df_columns example_df)))
          (''nn_prediction'' # map (\<lambda>key. ''predicted_'' @ key) (enabled_keys example_targets))"
    by blast
  have l2: "length preds = 2"
    using len by (simp add: example_df_def)
  have p0: "preds ! 0 = ?d0"
  proof -
    have "0 < length preds"
      using l2 by simp
    from paths[rule_format, OF this] obtain img_path mask_path where
      n: "nn_predict_imt path_backend img_path mask_path [2] example_targets = Inr (preds ! 0)"
      and a: "\<exists>col. map_of (df_columns example_df) ''complete_path'' = Some col
             \<and> 0 < length col \<and> img_path = col ! 0"
      and b: "\<exists>col. map_of (df_columns example_df) ''mask_path'' = Some col
             \<and> 0 < length col \<and> mask_path = col ! 0"
      by auto
    have "img_path = CStr ''a.png''"
      using a by (auto simp: example_df_def)
    moreover have "mask_path = CStr ''a_mask.png''"
      using b by (auto simp: example_df_def)
    ultimately show ?thesis
      using n by (simp add: path_nn_predict_imt)
  qed
  have p1: "preds ! 1 = ?d1"
  proof -
    have "1 < length preds"
      using l2 by simp
    from paths[rule_format, OF this] obtain img_path mask_path where
      n: "nn_predict_imt path_backend img_path mask_path [2] example_targets = Inr (preds ! 1)"
      and a: "\<exists>col. map_of (df_columns example_df) ''complete_path'' = Some col
             \<and> 1 < length col \<and> img_path = col ! 1"
      and b: "\<exists>col. map_of (df_columns example_df) ''mask_path'' = Some col
             \<and> 1 < length col \<and> mask_path = col ! 1"
      by auto
    have "img_path = CStr ''b.png''"
      using a by (auto simp: example_df_def)
    moreover have "mask_path = CStr ''b_mask.png''"
      using b by (auto simp: example_df_def)
    ultimately show ?thesis
      using n by (simp add: path_nn_predict_imt)
  qed
  have c1: "map_of (df_columns (snd ?run 0)) ''predicted_imt_max'' =
        Some [CArr \<lparr>shape = [], elems = [1]\<rparr>, CArr \<lparr>shape = [], elems = [2 / 5]\<rparr>]"
  proof -
    from cols ks obtain col where c:
      "map_of (df_columns (snd ?run 0)) (''predicted_'' @ ''imt_max'') = Some col"
      "length col = length preds"
      "\<forall>i < length preds. \<exists>a. map_of (preds ! i) ''imt_max'' = Some a \<and> col ! i = CArr a"
      by fastforce
    have i0: "0 < length preds" and i1: "1 < length preds"
      using l2 by simp_all
    have e0: "col ! 0 = CArr \<lparr>shape = [], elems = [1]\<rparr>"
      using c(3)[rule_format, OF i0] p0 by auto
    have e1: "col ! 1 = CArr \<lparr>shape = [], elems = [2 / 5]\<rparr>"
      using c(3)[rule_format, OF i1] p1 by auto
    have "col = [col ! 0, col ! 1]"
      using c(2) l2 by (intro list_of_two) simp
    then have "col = [CArr \<lparr>shape = [], elems = [1]\<rparr>, CArr \<lparr>shape = [], elems = [2 / 5]\<rparr>]"
      unfolding e0 e1 .
    then show ?thesis
      using c(1) by simp
  qed
  have c2: "map_of (df_columns (snd ?run 0)) ''predicted_plaque'' =
        Some [CArr \<lparr>shape = [], elems = [4 / 5]\<rparr>, CArr \<lparr>shape = [], elems = [3 / 5]\<rparr>]"
  proof -
    from cols ks obtain col where c:
      "map_of (df_columns (snd ?run 0)) (''predicted_'' @ ''plaque'') = Some col"
      "length col = length preds"
      "\<forall>i < length preds. \<exists>a. map_of (preds ! i) ''plaque'' = Some a \<and> col ! i = CArr a"
      by fastforce
    have i0: "0 < length preds" and i1: "1 < length preds"
      using l2 by simp_all
    have e0: "col ! 0 = CArr \<lparr>shape = [], elems = [4 / 5]\<rparr>"
      using c(3)[rule_format, OF i0] p0 by auto
    have e1: "col ! 1 = CArr \<lparr>shape = [], elems = [3 / 5]\<rparr>"
      using c(3)[rule_format, OF i1] p1 by auto
    have "col = [col ! 0, col ! 1]"
      using c(2) l2 by (intro list_of_two) simp
    then have "col = [CArr \<lparr>shape = [], elems = [4 / 5]\<rparr>, CArr \<lparr>shape = [], elems = [3 / 5]\<rparr>]"
      unfolding e0 e1 .
    then show ?thesis
      using c(1) by simp
  qed
  have n: "map fst (df_columns (snd ?run 0)) =
      [''complete_path'', ''mask_path'', ''gt_imt_max'', ''nn_prediction'',
       ''predicted_imt_max'', ''predicted_plaque'']"
    unfolding names ks by (simp add: example_df_def)
  show ?thesis
    using w d f c1 c2 n by simp
qed

lemma example_run:
  "predict_complete_dataframe example_backend 0 ''complete_path'' example_targets s (\<lambda>_. example_df) =
     (Inr 0,
      (\<lambda>_. example_df)(0 := example_df\<lparr>df_columns :=
         df_columns example_df @
         [(''nn_prediction'',
             [CDict [(''imt_max'', \<lparr>shape = [], elems = [1 / 2]\<rparr>), (''plaque'', \<lparr>shape = [], elems = [1]\<rparr>)],
              CDict [(''imt_max'', \<lparr>shape = [], elems = [1 / 2]\<rparr>), (''plaque'', \<lparr>shape = [], elems = [1]\<rparr>)]]),
          (''predicted_imt_max'', [CArr \<lparr>shape = [], elems = [1 / 2]\<rparr>, CArr \<lparr>shape = [], elems = [1 / 2]\<rparr>]),
          (''predicted_plaque'', [CArr \<lparr>shape = [], elems = [1]\<rparr>, CArr \<lparr>shape = [], elems = [1]\<rparr>])]\<rparr>))"
proof -
  have d: "distinct (map fst example_targets)"
    by (simp add: example_targets_def)
  show ?thesis
    unfolding predict_complete_dataframe_run[where hp = "\<lambda>_. example_df" and ref = 0,
        OF d example_predict_rows]
    by (simp add: example_df_def example_targets_def enabled_keys_def component_column_def
        predicted_name_def)
qed

text \<open>
  Claim C10, as the code has it. When every row is predicted, the call returns the
  reference it was given and changes no other object. In the object itself the index is
  unchanged, every column other than \<^verbatim>\<open>nn_prediction\<close> and the \<^verbatim>\<open>predicted_<name>\<close> of the
  enabled targets is unchanged, and \<^verbatim>\<open>nn_prediction\<close> holds the prediction mapping of
  each row. When the table had no column of these names, its columns are the columns it
  had, as they were, followed by \<^verbatim>\<open>nn_prediction\<close> and the \<^verbatim>\<open>predicted_<name>\<close>.
\<close>

theorem predict_complete_dataframe_frame:
  assumes "distinct (map fst tc)"
    and "predict_rows be (hp ref) input_column tc input_shape = Inr preds"
  shows "\<exists>hp'.
      predict_complete_dataframe be ref input_column tc input_shape hp = (Inr ref, hp')
    \<and> (\<forall>other. other \<noteq> ref \<longrightarrow> hp' other = hp other)
    \<and> df_index (hp' ref) = df_index (hp ref)
    \<and> (\<forall>n. n \<noteq> ''nn_prediction'' \<and> n \<notin> predicted_name ` set (enabled_keys tc) \<longrightarrow>
          df_get_column (hp' ref) n = df_get_column (hp ref) n)
    \<and> df_get_column (hp' ref) ''nn_prediction'' = Inr (map CDict preds)
    \<and> (''nn_prediction'' \<notin> fst ` set (df_columns (hp ref))
        \<and> (\<forall>key \<in> set (enabled_keys tc). predicted_name key \<notin> fst ` set (df_columns (hp ref))) \<longrightarrow>
          df_columns (hp' ref) =
            df_columns (hp ref) @
            (''nn_prediction'', map CDict preds) #
            map (\<lambda>key. (predicted_name key, component_column key preds)) (enabled_keys tc))"
proof -
  let ?ks = "enabled_keys tc"
  let ?cols = "df_columns (hp ref)"
  let ?cols1 = "AList.update ''nn_prediction'' (map CDict preds) ?cols"
  let ?W = "with_predicted_columns preds ?ks ?cols1"
  let ?hp' = "hp(ref := (hp ref)\<lparr>df_columns := ?W\<rparr>)"
  have run: "predict_complete_dataframe be ref input_column tc input_shape hp = (Inr ref, ?hp')"
    using predict_complete_dataframe_run[where hp = hp and ref = ref, OF assms] .
  have dk: "distinct ?ks"
    using assms(1) by (rule distinct_enabled_keys)
  have others: "\<forall>other. other \<noteq> ref \<longrightarrow> ?hp' other = hp other"
    by simp
  have index: "df_index (?hp' ref) = df_index (hp ref)"
    by simp
  have same: "df_get_column (?hp' ref) n = df_get_column (hp ref) n"
    if "n \<noteq> ''nn_prediction'' \<and> n \<notin> predicted_name ` set ?ks" for n
    using that by (simp add: df_get_column_def with_predicted_other update_conv')
  have nn: "df_get_column (?hp' ref) ''nn_prediction'' = Inr (map CDict preds)"
  proof -
    have "''nn_prediction'' \<notin> predicted_name ` set ?ks"
      by auto
    then show ?thesis
      by (simp add: df_get_column_def with_predicted_other update_conv')
  qed
  have fresh: "df_columns (?hp' ref) =
            ?cols @ (''nn_prediction'', map CDict preds) #
            map (\<lambda>key. (predicted_name key, component_column key preds)) ?ks"
    if h: "''nn_prediction'' \<notin> fst ` set ?cols
        \<and> (\<forall>key \<in> set ?ks. predicted_name key \<notin> fst ` set ?cols)"
  proof -
    have u: "?cols1 = ?cols @ [(''nn_prediction'', map CDict preds)]"
      using h by (intro update_fresh) simp
    have "\<forall>k \<in> set ?ks. predicted_name k \<notin> fst ` set ?cols1"
      unfolding u using h by auto
    from with_predicted_fresh[OF dk this, of preds] show ?thesis
      unfolding u by simp
  qed
  show ?thesis
    using run others index same nn fresh by (intro exI[of _ ?hp']) blast
qed

text \<open>The theorem on the example table, which has none of the new names.\<close>

theorem predict_complete_dataframe_frame_witness:
  "distinct (map fst example_targets)
   \<and> ''nn_prediction'' \<notin> fst ` set (df_columns example_df)
   \<and> predicted_name ''imt_max'' \<notin> fst ` set (df_columns example_df)
   \<and> predicted_name ''plaque'' \<notin> fst ` set (df_columns example_df)
   \<and> fst (predict_complete_dataframe example_backend 0 ''complete_path'' example_targets [512, 512]
            (\<lambda>_. example_df)) = Inr 0
   \<and> snd (predict_complete_dataframe example_backend 0 ''complete_path'' example_targets [512, 512]
            (\<lambda>_. example_df)) 1 = example_df
   \<and> df_index (snd (predict_complete_dataframe example_backend 0 ''complete_path'' example_targets
            [512, 512] (\<lambda>_. example_df)) 0) = df_index example_df
   \<and> take 3 (df_columns (snd (predict_complete_dataframe example_backend 0 ''complete_path''
            example_targets [512, 512] (\<lambda>_. example_df)) 0)) = df_columns example_df"
proof -
  let ?run = "predict_complete_dataframe example_backend 0 ''complete_path'' example_targets [512, 512]
      (\<lambda>_. example_df)"
  have d: "distinct (map fst example_targets)"
    by (simp add: example_targets_def)
  have a: "''nn_prediction'' \<notin> fst ` set (df_columns example_df)
     \<and> predicted_name ''imt_max'' \<notin> fst ` set (df_columns example_df)
     \<and> predicted_name ''plaque'' \<notin> fst ` set (df_columns example_df)"
    by (simp add: example_df_def predicted_name_def)
  then have a': "''nn_prediction'' \<notin> fst ` set (df_columns ((\<lambda>_. example_df) (0 :: nat)))
     \<and> (\<forall>key \<in> set (enabled_keys example_targets).
            predicted_name key \<notin> fst ` set (df_columns ((\<lambda>_. example_df) (0 :: nat))))"
    by (simp add: example_targets_def enabled_keys_def)
  from predict_complete_dataframe_frame[where hp = "\<lambda>_. example_df" and ref = 0,
      OF d example_predict_rows, of "[512, 512]"] a'
  obtain hp' where hp': "?run = (Inr 0, hp')"
    "\<forall>other. other \<noteq> 0 \<longrightarrow> hp' other = example_df"
    "df_index (hp' 0) = df_index example_df"
    "df_columns (hp' 0) = df_columns example_df @
       (''nn_prediction'', map CDict
          [[(''imt_max'', \<lparr>shape = [], elems = [1 / 2]\<rparr>), (''plaque'', \<lparr>shape = [], elems = [1]\<rparr>)],
           [(''imt_max'', \<lparr>shape = [], elems = [1 / 2]\<rparr>), (''plaque'', \<lparr>shape = [], elems = [1]\<rparr>)]]) #
       map (\<lambda>key. (predicted_name key, component_column key
          [[(''imt_max'', \<lparr>shape = [], elems = [1 / 2]\<rparr>), (''plaque'', \<lparr>shape = [], elems = [1]\<rparr>)],
           [(''imt_max'', \<lparr>shape = [], elems = [1 / 2]\<rparr>), (''plaque'', \<lparr>shape = [], elems = [1]\<rparr>)]]))
         (enabled_keys example_targets)"
    by blast
  have l: "length (df_columns example_df) = 3"
    by (simp add: example_df_def)
  have t: "take 3 (df_columns (hp' 0)) = df_columns example_df"
    unfolding hp'(4) using l by simp
  show ?thesis
    using d a hp'(1,2,3) t by simp
qed

text \<open>
  A table that has a column \<^verbatim>\<open>nn_prediction\<close> before the call: the cell \<^verbatim>\<open>'old'\<close> of
  that column is replaced by the prediction mapping of the row.
\<close>

theorem predict_complete_dataframe_overwrites:
  "fst (predict_complete_dataframe example_backend 0 ''complete_path'' example_targets [512, 512]
          (\<lambda>_. example_df_predicted)) = Inr 0
   \<and> df_get_column example_df_predicted ''nn_prediction'' = Inr [CStr ''old'']
   \<and> df_get_column
        (snd (predict_complete_dataframe example_backend 0 ''complete_path'' example_targets [512, 512]
               (\<lambda>_. example_df_predicted)) 0) ''nn_prediction'' =
       Inr [CDict [(''imt_max'', \<lparr>shape = [], elems = [1 / 2]\<rparr>),
                   (''plaque'', \<lparr>shape = [], elems = [1]\<rparr>)]]"
proof -
  have d: "distinct (map fst example_targets)"
    by (simp add: example_targets_def)
  have row: "row_prediction example_backend example_df_predicted ''complete_path'' example_targets
      [512, 512] 0 =
      Inr [(''imt_max'', \<lparr>shape = [], elems = [1 / 2]\<rparr>), (''plaque'', \<lparr>shape = [], elems = [1]\<rparr>)]"
    by (simp add: row_prediction_def row_img_path_def row_mask_path_def row_cell_def
      example_df_predicted_def nn_predict_imt_def nn_input_def load_gray_def example_backend_def
      normalize255_def nd_map_def expand_dims0_def example_targets_def pred_item_def squeeze_def)
  have rows: "predict_rows example_backend ((\<lambda>_. example_df_predicted) (0 :: nat)) ''complete_path''
      example_targets [512, 512] =
      Inr [[(''imt_max'', \<lparr>shape = [], elems = [1 / 2]\<rparr>), (''plaque'', \<lparr>shape = [], elems = [1]\<rparr>)]]"
    using row by (simp add: predict_rows_def example_df_predicted_def)
  show ?thesis
    unfolding predict_complete_dataframe_run[where hp = "\<lambda>_. example_df_predicted" and ref = 0,
        OF d rows]
    by (simp add: example_df_predicted_def example_targets_def enabled_keys_def
        component_column_def predicted_name_def df_get_column_def)
qed

section \<open>Properties of the batch diagnostic printer\<close>

lemma example_pass_example:
  "example_pass example_backend False example_batch 0 =
     Inr ([1 / 2, 1], \<lparr>shape = [1, 1], elems = [1]\<rparr>, \<lparr>shape = [2], elems = [1 / 2, 1]\<rparr>,
          \<lparr>shape = [2], elems = [0, 0]\<rparr>)"
  by (simp add: example_pass_def example_batch_def gt_of_def y_item_def py_index_def
      example_backend_def stack_prediction_def squeeze_def sub_gt_def expand_dims0_def upt_rec)

lemma batch_loop_ok:
  assumes "\<forall>i \<in> set idxs. \<exists>r. example_pass be pp b i = Inr r"
  shows "\<exists>errs outs. batch_loop be pp plot b idxs st = Inr (fst st @ errs, snd st @ outs)
           \<and> length errs = length idxs"
  using assms
proof (induction idxs arbitrary: st)
  case Nil
  show ?case
    by (intro exI[of _ "[]"]) simp
next
  case (Cons i idxs)
  from Cons.prems obtain r where r: "example_pass be pp b i = Inr r"
    by auto
  obtain gt x pred err where r': "r = (gt, x, pred, err)"
    by (cases r) auto
  let ?st = "record_example plot r st"
  have "\<forall>i \<in> set idxs. \<exists>r. example_pass be pp b i = Inr r"
    using Cons.prems by simp
  from Cons.IH[OF this, of ?st] obtain errs outs where
    rest: "batch_loop be pp plot b idxs ?st = Inr (fst ?st @ errs, snd ?st @ outs)"
      "length errs = length idxs"
    by blast
  have "fst ?st = fst st @ [err]"
    and "snd ?st = snd st @ (if plot then [Imshow (squeeze x)] else [])
                @ [PrintGT gt, PrintPredicted pred, PrintError err]"
    by (simp_all add: record_example_def r')
  then have "batch_loop be pp plot b (i # idxs) st =
      Inr (fst st @ (err # errs),
           snd st @ ((if plot then [Imshow (squeeze x)] else [])
                @ [PrintGT gt, PrintPredicted pred, PrintError err] @ outs))"
    using r rest(1) by simp
  then show ?case
    using rest(2) by (metis length_Cons)
qed

lemma plot_loop_step:
  assumes "next_batch gen pos = Some b"
    and "\<forall>i < batch_size gen. \<exists>r. example_pass be pp b i = Inr r"
  shows "\<exists>errs outs. length errs = batch_size gen
     \<and> plot_loop be pp plot gen pos loops st =
         (if loops = 1 then Some (Inr (pos + 1, fst st @ errs, snd st @ outs))
          else plot_loop be pp plot gen (pos + 1) (loops - 1) (fst st @ errs, snd st @ outs))"
proof -
  have "\<forall>i \<in> set [0..<batch_size gen]. \<exists>r. example_pass be pp b i = Inr r"
    using assms(2) by simp
  from batch_loop_ok[OF this, of plot st] obtain errs outs where
    bl: "batch_loop be pp plot b [0..<batch_size gen] st = Inr (fst st @ errs, snd st @ outs)"
    and len: "length errs = batch_size gen"
    by auto
  have "plot_loop be pp plot gen pos loops st =
         (if loops = 1 then Some (Inr (pos + 1, fst st @ errs, snd st @ outs))
          else plot_loop be pp plot gen (pos + 1) (loops - 1) (fst st @ errs, snd st @ outs))"
    by (subst plot_loop.simps) (simp add: assms(1) bl)
  then show ?thesis
    using len by blast
qed

lemma plot_loop_steps:
  assumes "batches_ok be pp gen pos n"
    and "\<forall>j. 1 \<le> j \<and> j \<le> int n \<longrightarrow> loops \<noteq> j"
  shows "\<exists>errs outs. length errs = n * batch_size gen
     \<and> plot_loop be pp plot gen pos loops st =
         plot_loop be pp plot gen (pos + n) (loops - int n) (fst st @ errs, snd st @ outs)"
  using assms
proof (induction n arbitrary: pos loops st)
  case 0
  show ?case
    by (intro exI[of _ "[]"]) simp
next
  case (Suc n)
  have "\<exists>b. next_batch gen (pos + 0) = Some b
        \<and> (\<forall>i < batch_size gen. \<exists>r. example_pass be pp b i = Inr r)"
    using Suc.prems(1) unfolding batches_ok_def by blast
  then obtain b where b: "next_batch gen pos = Some b"
    "\<forall>i < batch_size gen. \<exists>r. example_pass be pp b i = Inr r"
    by auto
  have l1: "loops \<noteq> 1"
    using Suc.prems(2) by auto
  from plot_loop_step[OF b, of plot loops st] l1 obtain e1 o1 where
    first: "length e1 = batch_size gen"
      "plot_loop be pp plot gen pos loops st =
         plot_loop be pp plot gen (pos + 1) (loops - 1) (fst st @ e1, snd st @ o1)"
    by auto
  have ok': "batches_ok be pp gen (pos + 1) n"
    unfolding batches_ok_def
  proof (intro allI impI)
    fix k assume "k < n"
    then have "Suc k < Suc n"
      by simp
    then have "\<exists>b. next_batch gen (pos + Suc k) = Some b
        \<and> (\<forall>i < batch_size gen. \<exists>r. example_pass be pp b i = Inr r)"
      using Suc.prems(1) unfolding batches_ok_def by blast
    then show "\<exists>b. next_batch gen (pos + 1 + k) = Some b
        \<and> (\<forall>i < batch_size gen. \<exists>r. example_pass be pp b i = Inr r)"
      by simp
  qed
  have nb': "\<forall>j. 1 \<le> j \<and> j \<le> int n \<longrightarrow> loops - 1 \<noteq> j"
  proof (intro allI impI)
    fix j :: int assume "1 \<le> j \<and> j \<le> int n"
    then have "1 \<le> j + 1 \<and> j + 1 \<le> int (Suc n)"
      by simp
    then have "loops \<noteq> j + 1"
      using Suc.prems(2) by blast
    then show "loops - 1 \<noteq> j"
      by simp
  qed
  from Suc.IH[OF ok' nb', of "(fst st @ e1, snd st @ o1)"] obtain e2 o2 where
    rest: "length e2 = n * batch_size gen"
      "plot_loop be pp plot gen (pos + 1) (loops - 1) (fst st @ e1, snd st @ o1) =
         plot_loop be pp plot gen (pos + 1 + n) (loops - 1 - int n)
           (fst st @ e1 @ e2, snd st @ o1 @ o2)"
    by auto
  have "length (e1 @ e2) = Suc n * batch_size gen"
    using first(1) rest(1) by simp
  moreover have "plot_loop be pp plot gen pos loops st =
      plot_loop be pp plot gen (pos + Suc n) (loops - int (Suc n))
        (fst st @ (e1 @ e2), snd st @ (o1 @ o2))"
    using first(2) rest(2) by (simp add: algebra_simps)
  ultimately show ?case
    by blast
qed

lemma plot_loop_breaks:
  assumes "1 \<le> loops" and "batches_ok be pp gen pos (nat loops)"
  shows "\<exists>errs outs. length errs = nat loops * batch_size gen
     \<and> plot_loop be pp plot gen pos loops st =
         Some (Inr (pos + nat loops, fst st @ errs, snd st @ outs))"
proof -
  define n where "n = nat loops - 1"
  have n: "nat loops = Suc n" "loops = int n + 1"
    using assms(1) by (simp_all add: n_def)
  have ok: "batches_ok be pp gen pos n"
    using assms(2) unfolding batches_ok_def n(1) by simp
  have nb: "\<forall>j. 1 \<le> j \<and> j \<le> int n \<longrightarrow> loops \<noteq> j"
    using n(2) by simp
  from plot_loop_steps[OF ok nb, of plot st] obtain e1 o1 where
    first: "length e1 = n * batch_size gen"
      "plot_loop be pp plot gen pos loops st =
         plot_loop be pp plot gen (pos + n) (loops - int n) (fst st @ e1, snd st @ o1)"
    by auto
  from assms(2) obtain b where b: "next_batch gen (pos + n) = Some b"
    "\<forall>i < batch_size gen. \<exists>r. example_pass be pp b i = Inr r"
    unfolding batches_ok_def n(1) by blast
  have one: "loops - int n = 1"
    using n(2) by simp
  from plot_loop_step[OF b, of plot "loops - int n" "(fst st @ e1, snd st @ o1)"] obtain e2 o2 where
    last: "length e2 = batch_size gen"
      "plot_loop be pp plot gen (pos + n) (loops - int n) (fst st @ e1, snd st @ o1) =
         Some (Inr (pos + n + 1, fst st @ e1 @ e2, snd st @ o1 @ o2))"
    unfolding one by auto
  have "length (e1 @ e2) = nat loops * batch_size gen"
    using first(1) last(1) n(1) by simp
  moreover have "plot_loop be pp plot gen pos loops st =
      Some (Inr (pos + nat loops, fst st @ (e1 @ e2), snd st @ (o1 @ o2)))"
    using first(2) last(2) n(1) by simp
  ultimately show ?thesis
    by blast
qed

lemma plot_loop_exhausted:
  assumes "batches_ok be pp gen pos n"
    and "next_batch gen (pos + n) = None"
    and "loops \<le> 0 \<or> int n < loops"
  shows "\<exists>errs outs. length errs = n * batch_size gen
     \<and> plot_loop be pp plot gen pos loops st =
         Some (Inr (pos + n, fst st @ errs, snd st @ outs))"
proof -
  have nb: "\<forall>j. 1 \<le> j \<and> j \<le> int n \<longrightarrow> loops \<noteq> j"
    using assms(3) by auto
  from plot_loop_steps[OF assms(1) nb, of plot st] obtain errs outs where
    steps: "length errs = n * batch_size gen"
      "plot_loop be pp plot gen pos loops st =
         plot_loop be pp plot gen (pos + n) (loops - int n) (fst st @ errs, snd st @ outs)"
    by auto
  have "plot_loop be pp plot gen (pos + n) (loops - int n) (fst st @ errs, snd st @ outs) =
      Some (Inr (pos + n, fst st @ errs, snd st @ outs))"
    by (subst plot_loop.simps) (simp add: assms(2))
  then show ?thesis
    using steps by auto
qed

lemma plot_loop_never_breaks_aux:
  assumes "plot_loop be pp plot gen pos loops st = Some y"
  shows "\<not> (loops \<le> 0 \<and> (\<forall>n. batches_ok be pp gen 0 n))"
  using assms
proof (induction rule: plot_loop.raw_induct [rotated -1, consumes 1, case_names step])
  case (step f be pp plot gen pos loops st y)
  note 1 = step
  show ?case
  proof
    assume h: "loops \<le> 0 \<and> (\<forall>n. batches_ok be pp gen 0 n)"
    then have "batches_ok be pp gen 0 (Suc pos)"
      by blast
    then have "\<exists>b. next_batch gen (0 + pos) = Some b
        \<and> (\<forall>i < batch_size gen. \<exists>r. example_pass be pp b i = Inr r)"
      unfolding batches_ok_def by blast
    then obtain b where b: "next_batch gen pos = Some b"
      "\<forall>i < batch_size gen. \<exists>r. example_pass be pp b i = Inr r"
      by auto
    have "\<forall>i \<in> set [0..<batch_size gen]. \<exists>r. example_pass be pp b i = Inr r"
      using b(2) by simp
    from batch_loop_ok[OF this, of plot st] obtain st' where
      bl: "batch_loop be pp plot b [0..<batch_size gen] st = Inr st'"
      by blast
    have l: "loops - 1 \<noteq> 0" "loops - 1 \<le> 0"
      using h by simp_all
    have "f be pp plot gen (pos + 1) (loops - 1) st' = Some y"
      using "1"(2) b(1) bl l(1) by simp
    from "1"(1)[OF this] show False
      using h l(2) by simp
  qed
qed

lemma plot_loop_never_breaks:
  assumes "loops \<le> 0" and "\<forall>n. batches_ok be pp gen 0 n"
  shows "plot_loop be pp plot gen pos loops st = None"
proof (cases "plot_loop be pp plot gen pos loops st")
  case None
  then show ?thesis .
next
  case (Some y)
  then show ?thesis
    using plot_loop_never_breaks_aux[OF Some] assms by blast
qed

text \<open>
  A loop bound of at least one. When the generator yields \<^verbatim>\<open>loops\<close> batches and every
  example of them is processed without an exception, the loop takes exactly \<^verbatim>\<open>loops\<close>
  batches and ends at the \<^verbatim>\<open>break\<close>, with \<^verbatim>\<open>batch_size\<close> errors per batch. A generator
  that is exhausted after \<open>n\<close> batches, fewer than \<^verbatim>\<open>loops\<close>, ends the loop after these
  \<open>n\<close> batches.
\<close>

lemma plot_predictions_bounded:
  "(1 \<le> loops \<and> batches_ok be pp gen 0 (nat loops) \<longrightarrow>
      (\<exists>errors out.
          plot_loop be pp plot gen 0 loops ([], []) = Some (Inr (nat loops, errors, out))
        \<and> length errors = nat loops * batch_size gen
        \<and> plot_predictions be pp gen plot loops =
            Some (case mean_errors errors of
                    Inl e \<Rightarrow> Inl e
                  | Inr m \<Rightarrow> Inr (nat loops, errors, out @ [PrintMean m]))))
   \<and> (batches_ok be pp gen 0 n \<and> next_batch gen n = None \<and> int n < loops \<longrightarrow>
      (\<exists>errors out.
          plot_loop be pp plot gen 0 loops ([], []) = Some (Inr (n, errors, out))
        \<and> length errors = n * batch_size gen
        \<and> plot_predictions be pp gen plot loops =
            Some (case mean_errors errors of
                    Inl e \<Rightarrow> Inl e
                  | Inr m \<Rightarrow> Inr (n, errors, out @ [PrintMean m]))))"
proof (intro conjI impI)
  assume h: "1 \<le> loops \<and> batches_ok be pp gen 0 (nat loops)"
  from plot_loop_breaks[of loops be pp gen 0 plot "([], [])"] h
  obtain errs outs where r: "length errs = nat loops * batch_size gen"
    "plot_loop be pp plot gen 0 loops ([], []) = Some (Inr (nat loops, errs, outs))"
    by auto
  show "\<exists>errors out.
          plot_loop be pp plot gen 0 loops ([], []) = Some (Inr (nat loops, errors, out))
        \<and> length errors = nat loops * batch_size gen
        \<and> plot_predictions be pp gen plot loops =
            Some (case mean_errors errors of
                    Inl e \<Rightarrow> Inl e
                  | Inr m \<Rightarrow> Inr (nat loops, errors, out @ [PrintMean m]))"
    using r by (intro exI[of _ errs] exI[of _ outs]) (simp add: plot_predictions_def)
next
  assume h: "batches_ok be pp gen 0 n \<and> next_batch gen n = None \<and> int n < loops"
  from plot_loop_exhausted[of be pp gen 0 n loops plot "([], [])"] h
  obtain errs outs where r: "length errs = n * batch_size gen"
    "plot_loop be pp plot gen 0 loops ([], []) = Some (Inr (n, errs, outs))"
    by auto
  show "\<exists>errors out.
          plot_loop be pp plot gen 0 loops ([], []) = Some (Inr (n, errors, out))
        \<and> length errors = n * batch_size gen
        \<and> plot_predictions be pp gen plot loops =
            Some (case mean_errors errors of
                    Inl e \<Rightarrow> Inl e
                  | Inr m \<Rightarrow> Inr (n, errors, out @ [PrintMean m]))"
    using r by (intro exI[of _ errs] exI[of _ outs]) (simp add: plot_predictions_def)
qed

lemma endless_batches_ok: "batches_ok example_backend False endless_batches 0 n"
  by (simp add: batches_ok_def endless_batches_def example_pass_example)

lemma varied_pass:
  "example_pass example_backend False first_batch 0 =
     Inr ([1, 3], \<lparr>shape = [1, 1], elems = [1]\<rparr>, \<lparr>shape = [2], elems = [1 / 2, 1]\<rparr>,
          \<lparr>shape = [2], elems = [1 / 2, 2]\<rparr>)"
  "example_pass example_backend False second_batch 0 =
     Inr ([2, 1], \<lparr>shape = [1, 1], elems = [0]\<rparr>, \<lparr>shape = [2], elems = [1 / 2, 1]\<rparr>,
          \<lparr>shape = [2], elems = [3 / 2, 0]\<rparr>)"
  by (simp_all add: example_pass_def first_batch_def second_batch_def gt_of_def y_item_def py_index_def
      example_backend_def stack_prediction_def squeeze_def sub_gt_def expand_dims0_def upt_rec)

lemma varied_plot_loop_zero:
  "plot_loop example_backend False False varied_batches 0 0 ([], []) =
       Some (Inr (2,
         [\<lparr>shape = [2], elems = [1 / 2, 2]\<rparr>, \<lparr>shape = [2], elems = [3 / 2, 0]\<rparr>],
         [PrintGT [1, 3], PrintPredicted \<lparr>shape = [2], elems = [1 / 2, 1]\<rparr>,
          PrintError \<lparr>shape = [2], elems = [1 / 2, 2]\<rparr>,
          PrintGT [2, 1], PrintPredicted \<lparr>shape = [2], elems = [1 / 2, 1]\<rparr>,
          PrintError \<lparr>shape = [2], elems = [3 / 2, 0]\<rparr>]))"
  by (simp add: plot_loop.simps varied_batches_def varied_pass record_example_def)

lemma varied_plot_loop_one:
  "plot_loop example_backend False False varied_batches 0 1 ([], []) =
       Some (Inr (1,
         [\<lparr>shape = [2], elems = [1 / 2, 2]\<rparr>],
         [PrintGT [1, 3], PrintPredicted \<lparr>shape = [2], elems = [1 / 2, 1]\<rparr>,
          PrintError \<lparr>shape = [2], elems = [1 / 2, 2]\<rparr>]))"
  by (simp add: plot_loop.simps varied_batches_def varied_pass record_example_def)

lemma varied_mean:
  "mean_errors [\<lparr>shape = [2], elems = [1 / 2, 2]\<rparr>, \<lparr>shape = [2], elems = [3 / 2, 0]\<rparr>] =
     Inr \<lparr>shape = [2], elems = [1, 1]\<rparr>"
  "mean_errors [\<lparr>shape = [2], elems = [1 / 2, 2]\<rparr>] = Inr \<lparr>shape = [2], elems = [1 / 2, 2]\<rparr>"
  by (simp_all add: mean_errors_def nd_zip_def nd_map_def)

text \<open>
  Claim C9. The docstring calls \<^verbatim>\<open>loops\<close> the number of batches to predict on. With a
  loop bound of 0 the counter is \<open>-1\<close> at its first test and never 0, so the \<^verbatim>\<open>break\<close>
  is never reached: on the generator that yields batches for ever the function does not
  return, and on the generator of two batches it takes both batches, not none, and
  prints the mean of their two errors. With a loop bound of 1 it takes one batch and
  prints the mean, which is the error of that batch.
\<close>

theorem plot_predictions_loops_zero:
  "plot_predictions example_backend False endless_batches False 0 = None
   \<and> plot_predictions example_backend False varied_batches False 0 =
       Some (Inr (2,
         [\<lparr>shape = [2], elems = [1 / 2, 2]\<rparr>, \<lparr>shape = [2], elems = [3 / 2, 0]\<rparr>],
         [PrintGT [1, 3], PrintPredicted \<lparr>shape = [2], elems = [1 / 2, 1]\<rparr>,
          PrintError \<lparr>shape = [2], elems = [1 / 2, 2]\<rparr>,
          PrintGT [2, 1], PrintPredicted \<lparr>shape = [2], elems = [1 / 2, 1]\<rparr>,
          PrintError \<lparr>shape = [2], elems = [3 / 2, 0]\<rparr>,
          PrintMean \<lparr>shape = [2], elems = [1, 1]\<rparr>]))
   \<and> plot_predictions example_backend False varied_batches False 1 =
       Some (Inr (1,
         [\<lparr>shape = [2], elems = [1 / 2, 2]\<rparr>],
         [PrintGT [1, 3], PrintPredicted \<lparr>shape = [2], elems = [1 / 2, 1]\<rparr>,
          PrintError \<lparr>shape = [2], elems = [1 / 2, 2]\<rparr>,
          PrintMean \<lparr>shape = [2], elems = [1 / 2, 2]\<rparr>]))"
proof -
  have "plot_loop example_backend False False endless_batches 0 0 ([], []) = None"
    using endless_batches_ok by (intro plot_loop_never_breaks) simp_all
  then have a: "plot_predictions example_backend False endless_batches False 0 = None"
    by (simp add: plot_predictions_def)
  show ?thesis
    using a by (simp add: plot_predictions_def varied_plot_loop_zero varied_plot_loop_one varied_mean)
qed

end
